theory Spec2Isabelle
  imports Complex_Main "HOL-Library.AList"
begin

section \<open>The index manager of the datastore (xapianindex.py)\<close>

text \<open>
  The module keeps two connections to one search index: a write connection that takes
  every mutation, and a read connection that answers searches from the snapshot it last
  reopened. A queue feeds one background worker with file-conversion work. The theory
  follows the module method by method. Mutation is explicit state passing; every call
  on a connection, the lock, the queue or the logger is also appended to a trace, so
  that the order of effects can be stated. An exception is a value of type \<open>exn\<close>.
\<close>

subsection \<open>Constants of the module\<close>

text \<open>
  The indexer operations and the tag modes are small Python integers. The module
  compares them with \<open>is\<close>; on small integers identity is equality.
\<close>

definition CREATE :: int where "CREATE = 1"
definition UPDATE :: int where "UPDATE = 2"
definition DELETE :: int where "DELETE = 3"

definition ADD :: int where "ADD = 1"
definition REMOVE :: int where "REMOVE = 2"

subsection \<open>Exceptions\<close>

datatype exn =
    KeyError string
  | NameError string
  | AttributeError string
  | TypeError string
  | ValueError string
  | IndexError string
  | OSError string
  | QueryParserError string
  | OtherError string

type_synonym 'a result = "exn + 'a"

subsection \<open>Documents\<close>

text \<open>
  \<open>secore.UnprocessedDocument\<close>: an identity and the list of fields appended to it.
\<close>

record udoc =
  doc_id :: string
  doc_fields :: "(string \<times> string) list"

text \<open>
  A document as the engine stores and returns it: its identity and its data blob, a
  dictionary from a key to the list of values kept for it. The tags of a document live
  in the data blob under the key \<open>tags\<close>.
\<close>

record sdoc =
  sid :: string
  sdata :: "(string \<times> string list) list"

definition data_get :: "sdoc \<Rightarrow> string \<Rightarrow> string list option" where
  "data_get d k = map_of (sdata d) k"

text \<open>
  Modelled from the spec: the engine processes an unprocessed document into a stored
  one by keeping, for every field key, the values given for it, in order (the engine
  binding "secore" is not part of the sources).
\<close>

fun add_value :: "string \<Rightarrow> string \<Rightarrow> (string \<times> string list) list \<Rightarrow> (string \<times> string list) list" where
  "add_value k v [] = [(k, [v])]"
| "add_value k v ((k', vs) # rest) =
     (if k = k' then (k', vs @ [v]) # rest else (k', vs) # add_value k v rest)"

fun process_fields :: "(string \<times> string) list \<Rightarrow> (string \<times> string list) list \<Rightarrow> (string \<times> string list) list" where
  "process_fields [] acc = acc"
| "process_fields ((k, v) # rest) acc = process_fields rest (add_value k v acc)"

definition process :: "udoc \<Rightarrow> sdoc" where
  "process d = \<lparr>sid = doc_id d, sdata = process_fields (doc_fields d) []\<rparr>"

text \<open>
  Modelled from the spec: an index is the list of its stored documents, at most one for
  an identity; the engine adds or replaces a document by identity and deletes by
  identity.
\<close>

fun eng_put :: "sdoc \<Rightarrow> sdoc list \<Rightarrow> sdoc list" where
  "eng_put d [] = [d]"
| "eng_put d (x # xs) = (if sid x = sid d then d # xs else x # eng_put d xs)"

definition eng_delete :: "string \<Rightarrow> sdoc list \<Rightarrow> sdoc list" where
  "eng_delete i ds = filter (\<lambda>x. sid x \<noteq> i) ds"

fun eng_get :: "string \<Rightarrow> sdoc list \<Rightarrow> sdoc option" where
  "eng_get i [] = None"
| "eng_get i (x # xs) = (if sid x = i then Some x else eng_get i xs)"

subsection \<open>Work items and the queue\<close>

text \<open>
  The file reference of a work item is \<open>None\<close> or a pair of a file name and a mime
  type. The name may be a path, an open file object (the worker reads its \<open>name\<close>) or
  \<open>None\<close>. \<open>Seq n\<close> stands for a sequence of \<open>n\<close> elements with \<open>n \<noteq> 2\<close>, which
  does not unpack into a pair; the empty tuple is \<open>Seq 0\<close>.
\<close>

datatype fileref = Path string | FileObj string | NoPath

datatype filestuff = Absent | FilePair fileref string | Seq nat

fun truthy :: "filestuff \<Rightarrow> bool" where
  "truthy Absent = False"
| "truthy (FilePair f m) = True"
| "truthy (Seq n) = (n \<noteq> 0)"

datatype item =
  Item (item_uid: string) (item_vid: "string option") (item_doc: "udoc option")
       (item_op: int) (item_fs: filestuff)

text \<open>
  An element of the queue is one work item (put by \<open>enque\<close>) or a sequence of work
  items (put by \<open>enqueSequence\<close>).
\<close>

datatype qelem = QItem item | QSeq "item list"

subsection \<open>The trace and the state\<close>

datatype level = INFO | WARNING | DEBUG | EXCEPTION

datatype event =
    Acquire
  | Release
  | WAdd udoc
  | WReplace udoc
  | WDelete string
  | WReplaceDocument sdoc
  | WFlush
  | RReopen
  | QPut qelem
  | QGet qelem
  | TaskDone
  | Unlink string
  | ApplyModel
  | Warn string
  | Log level string

text \<open>
  The state of an index manager: the documents of the write connection, the committed
  index, the snapshot of the read connection, the queue with its count of unfinished
  tasks, the known fields, the capabilities of the backing store (\<open>None\<close> when no
  store is bound), the running flag of the worker, the paths that exist in the file
  system, how often \<open>create_uid\<close> has been called, and the trace.
\<close>

record state =
  write_index :: "sdoc list"
  committed :: "sdoc list"
  read_index :: "sdoc list"
  queue :: "qelem list"
  unfinished :: nat
  known_fields :: "string list"
  backingstore :: "string list option"
  indexer_running :: bool
  files :: "string list"
  uid_calls :: nat
  trace :: "event list"

definition emit :: "event \<Rightarrow> state \<Rightarrow> state" where
  "emit e st = st\<lparr>trace := trace st @ [e]\<rparr>"

definition acquire :: "state \<Rightarrow> state" where
  "acquire st = emit Acquire st"

definition release :: "state \<Rightarrow> state" where
  "release st = emit Release st"

definition log_msg :: "level \<Rightarrow> string \<Rightarrow> state \<Rightarrow> state" where
  "log_msg l m st = emit (Log l m) st"

text \<open>
  The calls on the write connection. \<open>add\<close> and \<open>replace\<close> process the document they
  are given; given \<open>None\<close> they raise, since there is no document to read fields from.
\<close>

definition w_add :: "udoc option \<Rightarrow> state \<Rightarrow> unit result \<times> state" where
  "w_add doc st =
     (case doc of
        None \<Rightarrow> (Inl (AttributeError ''fields''), st)
      | Some d \<Rightarrow> (Inr (), emit (WAdd d) (st\<lparr>write_index := eng_put (process d) (write_index st)\<rparr>)))"

definition w_replace :: "udoc option \<Rightarrow> state \<Rightarrow> unit result \<times> state" where
  "w_replace doc st =
     (case doc of
        None \<Rightarrow> (Inl (AttributeError ''fields''), st)
      | Some d \<Rightarrow> (Inr (), emit (WReplace d) (st\<lparr>write_index := eng_put (process d) (write_index st)\<rparr>)))"

definition w_delete :: "string \<Rightarrow> state \<Rightarrow> state" where
  "w_delete i st = emit (WDelete i) (st\<lparr>write_index := eng_delete i (write_index st)\<rparr>)"

definition w_replace_document :: "sdoc \<Rightarrow> state \<Rightarrow> state" where
  "w_replace_document d st =
     emit (WReplaceDocument d) (st\<lparr>write_index := eng_put d (write_index st)\<rparr>)"

text \<open>
  Modelled from the spec: flushing the write connection commits its pending changes, and
  reopening the read connection moves its snapshot to the committed state.
\<close>

definition w_flush :: "state \<Rightarrow> state" where
  "w_flush st = emit WFlush (st\<lparr>committed := write_index st\<rparr>)"

definition r_reopen :: "state \<Rightarrow> state" where
  "r_reopen st = emit RReopen (st\<lparr>read_index := committed st\<rparr>)"

definition queue_put :: "qelem \<Rightarrow> state \<Rightarrow> state" where
  "queue_put x st = emit (QPut x) (st\<lparr>queue := queue st @ [x], unfinished := Suc (unfinished st)\<rparr>)"

subsection \<open>flush, enqueSequence and enque\<close>

definition flush :: "state \<Rightarrow> state" where
  "flush st = release (r_reopen (w_flush (acquire st)))"

definition enqueSequence :: "item list \<Rightarrow> state \<Rightarrow> state" where
  "enqueSequence commands st = queue_put (QSeq commands) st"

definition str_opt :: "string option \<Rightarrow> string" where
  "str_opt v = (case v of None \<Rightarrow> ''None'' | Some s \<Rightarrow> s)"

text \<open>
  \<open>enque\<close> implements the policy of what happens at once and what is left to the worker.
  A \<open>with\<close> block releases the lock also when its body raises.
\<close>

definition enque ::
  "string \<Rightarrow> string option \<Rightarrow> udoc option \<Rightarrow> int \<Rightarrow> filestuff \<Rightarrow> state \<Rightarrow> unit result \<times> state" where
  "enque uid vid doc operation fs st =
     (if operation = CREATE \<or> operation = UPDATE then
        (let s1 = acquire st;
             (r, s2) =
               (if operation = CREATE then
                  (case w_add doc s1 of
                     (Inl e, s) \<Rightarrow> (Inl e, s)
                   | (Inr u, s) \<Rightarrow> (Inr u, log_msg INFO (''created '' @ uid @ '':'' @ str_opt vid) s))
                else if operation = UPDATE then
                  (case w_replace doc s1 of
                     (Inl e, s) \<Rightarrow> (Inl e, s)
                   | (Inr u, s) \<Rightarrow> (Inr u, log_msg INFO (''updated '' @ uid @ '':'' @ str_opt vid) s))
                else (Inr (), s1));
             s3 = release s2
         in case r of
              Inl e \<Rightarrow> (Inl e, s3)
            | Inr u \<Rightarrow>
                (let s4 = flush s3
                 in if \<not> truthy fs then (Inr (), s4)
                    else (Inr (), queue_put (QItem (Item uid vid doc UPDATE fs)) s4)))
      else if operation = DELETE then
        (let s1 = acquire st;
             s2 = w_delete uid s1;
             s3 = log_msg INFO (''deleted content '' @ uid) s2;
             s4 = release s3
         in (Inr (), flush s4))
      else (Inr (), queue_put (QItem (Item uid vid doc operation fs)) st))"

definition delete :: "string \<Rightarrow> state \<Rightarrow> unit result \<times> state" where
  "delete uid st = enque uid None None DELETE Absent st"


subsection \<open>Values, queries and the collaborators outside the module\<close>

text \<open>
  The Python values a caller may pass as a query or inside a structured query.
\<close>

datatype pval =
    PNone
  | PStr string
  | PInt int
  | PList "pval list"
  | PDict "(string \<times> pval) list"

fun pval_true :: "pval \<Rightarrow> bool" where
  "pval_true PNone = False"
| "pval_true (PStr s) = (s \<noteq> [])"
| "pval_true (PInt n) = (n \<noteq> 0)"
| "pval_true (PList l) = (l \<noteq> [])"
| "pval_true (PDict d) = (d \<noteq> [])"

text \<open>
  The query tree handed to the engine: what \<open>query_all\<close>, \<open>query_field\<close>,
  \<open>query_range\<close>, \<open>query_composite\<close> and \<open>query_filter\<close> of the read connection
  build. \<open>QWord\<close> is a query the engine's own parser makes of a word under some flags.
\<close>

datatype qop = OP_AND | OP_OR

datatype query =
    QAll
  | QField string pval
  | QRange string real real
  | QComposite qop "query list"
  | QFilter query query
  | QWord string int

text \<open>
  A property as the data model returns it from \<open>fromstring\<close>.
\<close>

record property =
  prop_key :: string
  prop_value :: string
  for_xapian :: string

text \<open>
  The collaborators that are not part of the module are parameters:
  \<^item> \<open>create_uid\<close>: the uid the generator returns at its n-th call;
  \<^item> \<open>fromstring\<close>: the data model's mapping of a key and a value to a property, with
    the flag that says whether a field was added for it;
  \<^item> \<open>model_apply\<close>: what applying the data model makes of the known fields;
  \<^item> \<open>abspath\<close>: \<open>os.path.abspath\<close>;
  \<^item> \<open>converter\<close>: the text the converter extracts from a file name and a mime type,
    \<open>None\<close> when it yields nothing, or the exception it raises;
  \<^item> \<open>qp_parse\<close>: \<open>parse_query\<close> of the engine's query parser, prepared for a default
    operator, on a word and flags;
  \<^item> \<open>ptf\<close>: \<open>parse_timestamp_or_float\<close>;
  \<^item> \<open>maxint\<close>: \<open>sys.maxint\<close>;
  \<^item> \<open>tip\<close>: the backing store's tip revision of a uid;
  \<^item> \<open>rank\<close>: all documents of a snapshot that match a query, in the engine's order for
    a sort specification.
\<close>

record env =
  create_uid :: "nat \<Rightarrow> string"
  fromstring :: "string \<Rightarrow> string \<Rightarrow> property \<times> bool"
  model_apply :: "string list \<Rightarrow> string list"
  abspath :: "string \<Rightarrow> string"
  converter :: "string option \<Rightarrow> string \<Rightarrow> string option result"
  qp_parse :: "qop \<Rightarrow> string \<Rightarrow> int \<Rightarrow> query result"
  ptf :: "pval \<Rightarrow> real result"
  maxint :: int
  tip :: "string \<Rightarrow> string"
  rank :: "sdoc list \<Rightarrow> query \<Rightarrow> string \<Rightarrow> sdoc list"

subsection \<open>The query parser with its retry\<close>

text \<open>
  The names bound at module level by the imports, assignments and class statements of
  xapianindex.py, and the local names of \<open>_query_parse\<close> (its parameters, \<open>ri\<close>,
  \<open>qp\<close> and the caught exception \<open>e\<close>). Python resolves a name among the locals,
  then the module's names, then the builtins; \<open>string\<close> is not a builtin.
\<close>

definition module_names :: "string list" where
  "module_names =
     [''with_statement'', ''Queue'', ''Empty'', ''gc'', ''logging'', ''os'', ''re'', ''sys'',
      ''time'', ''thread'', ''threading'', ''warnings'', ''secore'', ''_xapian'', ''model'',
      ''converter'', ''create_uid'', ''parse_timestamp_or_float'', ''logger'', ''CREATE'',
      ''UPDATE'', ''DELETE'', ''ADD'', ''REMOVE'', ''ContentMappingIter'', ''IndexManager'']"

definition query_parse_locals :: "string list" where
  "query_parse_locals = [''self'', ''word'', ''flags'', ''op'', ''ri'', ''qp'', ''e'']"

text \<open>
  Reading a name inside \<open>_query_parse\<close> as the string to parse: \<open>word\<close> is the only
  name bound to a string; another bound name is not a string, and an unbound name
  raises NameError.
\<close>

definition lookup_name :: "string \<Rightarrow> string \<Rightarrow> string result" where
  "lookup_name word n =
     (if n = ''word'' then Inr word
      else if n \<in> set query_parse_locals \<or> n \<in> set module_names then Inl (TypeError n)
      else Inl (NameError n))"

text \<open>
  \<open>_query_parse(word, flags, op)\<close>. The handler of the parse error parses the name
  \<open>string\<close> with the flags 0.
\<close>

definition query_parse :: "env \<Rightarrow> string \<Rightarrow> int \<Rightarrow> qop option \<Rightarrow> query result" where
  "query_parse env word flags op =
     (let op' = (case op of None \<Rightarrow> OP_AND | Some o' \<Rightarrow> o')
      in case qp_parse env op' word flags of
           Inr q \<Rightarrow> Inr q
         | Inl (QueryParserError m) \<Rightarrow>
             (case lookup_name word ''string'' of
                Inl e \<Rightarrow> Inl e
              | Inr s \<Rightarrow> qp_parse env op' s 0)
         | Inl e \<Rightarrow> Inl e)"

subsection \<open>parse_query: the textual query grammar\<close>

text \<open>
  The flags of the engine's query parser that the module uses (xapian's values).
\<close>

definition FLAG_PHRASE :: int where "FLAG_PHRASE = 2"
definition FLAG_LOVEHATE :: int where "FLAG_LOVEHATE = 4"
definition FLAG_WILDCARD :: int where "FLAG_WILDCARD = 16"

text \<open>
  Whitespace as \<open>\S\<close> of a byte-string pattern and \<open>str.split()\<close> see it: space, tab,
  line feed, carriage return, form feed and vertical tab.
\<close>

definition is_space :: "char \<Rightarrow> bool" where
  "is_space c = (c \<in> set [CHR '' '', CHR 0x09, CHR 0x0A, CHR 0x0D, CHR 0x0C, CHR 0x0B])"

text \<open>
  \<open>nextword.match(query, start)\<close> for the pattern \<open>(\S+)\<close>: the longest run of
  characters that are not whitespace beginning at \<open>start\<close>; no match when there is
  none. The match ends at \<open>start\<close> plus the length of the run.
\<close>

definition match_word :: "string \<Rightarrow> nat \<Rightarrow> string option" where
  "match_word query start =
     (let w = takeWhile (\<lambda>c. \<not> is_space c) (drop start query)
      in if w = [] then None else Some w)"

text \<open>
  \<open>endquote.search(query, start)\<close> for the pattern of one double quote: the index of
  the first double quote at or after \<open>start\<close>.
\<close>

definition find_quote :: "string \<Rightarrow> nat \<Rightarrow> nat option" where
  "find_quote query start =
     (let rest = drop start query
      in if CHR 0x22 \<in> set rest
         then Some (start + length (takeWhile (\<lambda>c. c \<noteq> CHR 0x22) rest))
         else None)"

definition startswith :: "string \<Rightarrow> string \<Rightarrow> bool" where
  "startswith s p = (take (length p) s = p)"

definition endswith :: "string \<Rightarrow> string \<Rightarrow> bool" where
  "endswith s p = (length p \<le> length s \<and> drop (length s - length p) s = p)"

text \<open>
  One pass through the body of the \<open>while\<close> loop of \<open>parse_query\<close>, from the position
  \<open>start\<close> with the flags gathered so far: \<open>None\<close> when the loop breaks; otherwise the
  clause that is appended, the next start and the flags, or the exception of
  \<open>_query_parse\<close>.
\<close>

definition parse_step ::
  "env \<Rightarrow> string list \<Rightarrow> string \<Rightarrow> nat \<Rightarrow> int \<Rightarrow> (query \<times> nat \<times> int) result option" where
  "parse_step env flds query start flags =
     (case match_word query start of
        None \<Rightarrow> None
      | Some w0 \<Rightarrow>
          (let orig = start;
               start1 = start + length w0 + 1;
               field = (if CHR '':'' \<in> set w0 \<and> takeWhile (\<lambda>c. c \<noteq> CHR '':'') w0 \<in> set flds
                        then takeWhile (\<lambda>c. c \<noteq> CHR '':'') w0 else []);
               word1 = (if CHR '':'' \<in> set w0 then tl (dropWhile (\<lambda>c. c \<noteq> CHR '':'') w0) else w0);
               qm = (if startswith word1 [CHR 0x22] then find_quote query start1 else None);
               word2 = (case qm of None \<Rightarrow> word1
                        | Some i \<Rightarrow> take (Suc i - orig) (drop orig query));
               flags2 = (case qm of None \<Rightarrow> flags | Some i \<Rightarrow> or flags FLAG_PHRASE);
               start2 = (case qm of None \<Rightarrow> start1 | Some i \<Rightarrow> Suc i + 1)
           in if field \<noteq> [] then Some (Inr (QField field (PStr word2), start2, flags2))
              else
                (let flags3 = (if endswith word2 ''*'' then or flags2 FLAG_WILDCARD else flags2)
                 in case query_parse env word2 flags3 None of
                      Inl e \<Rightarrow> Some (Inl e)
                    | Inr q \<Rightarrow> Some (Inr (q, start2, flags3)))))"

lemma parse_step_progress:
  "parse_step env flds query start flags = Some (Inr (q, start', flags')) \<Longrightarrow> start < start'"
  by (auto simp: parse_step_def Let_def find_quote_def
      split: option.splits if_splits sum.splits)

function parse_loop ::
  "env \<Rightarrow> string list \<Rightarrow> string \<Rightarrow> nat \<Rightarrow> int \<Rightarrow> query list \<Rightarrow> query list result" where
  "parse_loop env flds query start flags queries =
     (if start < length query then
        (case parse_step env flds query start flags of
           None \<Rightarrow> Inr queries
         | Some (Inl e) \<Rightarrow> Inl e
         | Some (Inr (q, start', flags')) \<Rightarrow>
             parse_loop env flds query start' flags' (queries @ [q]))
      else Inr queries)"
  by pat_completeness auto
termination
proof (relation "measure (\<lambda>(env, flds, query, start, flags, queries). length query - start)")
  show "wf (measure (\<lambda>(env, flds, query, start, flags, queries). length query - start))"
    by simp
next
  fix env :: env and flds query start flags and queries :: "query list"
    and x2 a y q x2a start' flags'
  assume "start < length query"
    and "parse_step env flds query start flags = Some x2"
    and "x2 = Inr y" and "(q, x2a) = y" and "(start', flags') = x2a"
  then have "parse_step env flds query start flags = Some (Inr (q, start', flags'))"
    by simp
  then have "start < start'"
    by (rule parse_step_progress)
  with \<open>start < length query\<close>
  show "((env, flds, query, start', flags', queries @ [q]), (env, flds, query, start, flags, queries))
        \<in> measure (\<lambda>(env, flds, query, start, flags, queries). length query - start)"
    by simp
qed

declare parse_loop.simps [simp del]

text \<open>
  \<open>parse_query(query)\<close>. A value that is not a string fails with a TypeError, in
  \<open>len\<close> or in the pattern match; an empty list or dictionary has the length 0, so
  the loop is not entered.
\<close>

definition parse_query :: "env \<Rightarrow> string list \<Rightarrow> pval \<Rightarrow> query result" where
  "parse_query env flds query =
     (case query of
        PStr s \<Rightarrow>
          (case parse_loop env flds s 0 FLAG_LOVEHATE [] of
             Inl e \<Rightarrow> Inl e
           | Inr queries \<Rightarrow> Inr (QComposite OP_AND queries))
      | PList [] \<Rightarrow> Inr (QComposite OP_AND [])
      | PDict [] \<Rightarrow> Inr (QComposite OP_AND [])
      | _ \<Rightarrow> Inl (TypeError ''expected string or buffer''))"

subsection \<open>search, _search, get and get_by_uid_prop\<close>

text \<open>
  The loop of \<open>search\<close> over the entries of a structured query, appending one clause
  for each to \<open>queries\<close>. A Python 2 dictionary iterates in an order the program does
  not control; the association list gives the order of this run.
\<close>

definition pop_default :: "string \<Rightarrow> pval \<Rightarrow> (string \<times> pval) list \<Rightarrow> pval" where
  "pop_default k dflt d = (case map_of d k of None \<Rightarrow> dflt | Some v \<Rightarrow> v)"

fun dict_clauses :: "env \<Rightarrow> (string \<times> pval) list \<Rightarrow> query list \<Rightarrow> query list result" where
  "dict_clauses env [] queries = Inr queries"
| "dict_clauses env ((k, v) # rest) queries =
     (case v of
        PDict r \<Rightarrow>
          (let start = pop_default ''start'' (PInt 0) r;
               end' = pop_default ''end'' (PInt (maxint env)) r
           in case ptf env start of
                Inl e \<Rightarrow> Inl e
              | Inr s \<Rightarrow>
                  (case ptf env end' of
                     Inl e \<Rightarrow> Inl e
                   | Inr t \<Rightarrow> dict_clauses env rest (queries @ [QRange k s t])))
      | PList items \<Rightarrow>
          dict_clauses env rest (queries @ [QComposite OP_OR (map (QField k) items)])
      | _ \<Rightarrow> dict_clauses env rest (queries @ [QField k v]))"

text \<open>
  The part of \<open>search\<close> that turns its \<open>query\<close> argument into the engine's query.
\<close>

definition build_query :: "env \<Rightarrow> string list \<Rightarrow> pval \<Rightarrow> query result" where
  "build_query env flds query =
     (if \<not> pval_true query then Inr QAll
      else
        (case query of
           PDict d \<Rightarrow>
             (let q = pop_default ''query'' PNone d;
                  d' = AList.delete ''query'' d
              in case (if pval_true q
                       then (case parse_query env flds q of
                               Inl e \<Rightarrow> Inl e
                             | Inr pq \<Rightarrow> Inr [pq])
                       else Inr []) of
                   Inl e \<Rightarrow> Inl e
                 | Inr queries \<Rightarrow>
                     if d' = [] \<and> queries = [] then Inr QAll
                     else
                       (case dict_clauses env d' queries of
                          Inl e \<Rightarrow> Inl e
                        | Inr qs \<Rightarrow> Inr (QComposite OP_AND qs)))
         | _ \<Rightarrow> parse_query env flds query))"

text \<open>
  Modelled from the spec: the engine runs a query against a snapshot with an index range
  from \<open>start\<close> up to, not including, \<open>end\<close>, in the order of the sort
  specification, and reports with the hits its count of all matches (secore's
  \<open>SearchConnection.search\<close> and \<open>matches_estimated\<close> are not part of the sources).
\<close>

definition engine_search ::
  "env \<Rightarrow> sdoc list \<Rightarrow> query \<Rightarrow> nat \<Rightarrow> nat \<Rightarrow> string \<Rightarrow> sdoc list \<times> nat" where
  "engine_search env snapshot q start_index end_index sortby =
     (let ranked = rank env snapshot q sortby
      in (take (end_index - start_index) (drop start_index ranked), length ranked))"

text \<open>
  \<open>_search(q, start_index, end_index, sortby)\<close> searches the read connection and
  returns the hits, each wrapped as a content object of its document, with the count.
  The indexes are natural numbers here.
\<close>

definition search_inner ::
  "env \<Rightarrow> state \<Rightarrow> query \<Rightarrow> nat \<Rightarrow> nat \<Rightarrow> string \<Rightarrow> sdoc list \<times> nat" where
  "search_inner env st q start_index end_index sortby =
     (let (results, count) = engine_search env (read_index st) q start_index end_index sortby
      in (results, count))"

text \<open>
  The \<open>order_by\<close> argument of \<open>search\<close>: \<open>None\<close>, a string or a list of strings.
  \<open>_search\<close> takes \<open>str\<close> of what it is given.
\<close>

datatype order_by = NoOrder | OrderStr string | OrderList "string list"

definition sort_spec :: "order_by \<Rightarrow> string" where
  "sort_spec ob =
     (case ob of
        NoOrder \<Rightarrow> ''None''
      | OrderStr s \<Rightarrow> s
      | OrderList [] \<Rightarrow> ''[]''
      | OrderList (x # xs) \<Rightarrow> x)"

definition search ::
  "env \<Rightarrow> state \<Rightarrow> pval \<Rightarrow> nat \<Rightarrow> nat \<Rightarrow> order_by \<Rightarrow> (sdoc list \<times> nat) result" where
  "search env st query start_index end_index ob =
     (case build_query env (known_fields st) query of
        Inl e \<Rightarrow> Inl e
      | Inr q \<Rightarrow> Inr (search_inner env st q start_index end_index (sort_spec ob)))"

text \<open>
  \<open>get(uid)\<close>: a point lookup in the read snapshot.
\<close>

definition get :: "state \<Rightarrow> string \<Rightarrow> sdoc result" where
  "get st uid =
     (case eng_get uid (read_index st) of
        None \<Rightarrow> Inl (KeyError uid)
      | Some doc \<Rightarrow> Inr doc)"

text \<open>
  \<open>get_by_uid_prop(uid, rev)\<close>. The tip is asked of the backing store; with no store
  bound the attribute access on \<open>None\<close> raises.
\<close>

definition get_by_uid_prop ::
  "env \<Rightarrow> state \<Rightarrow> string \<Rightarrow> string option \<Rightarrow> (sdoc list \<times> nat) result" where
  "get_by_uid_prop env st uid revision =
     (let q = QField ''uid'' (PStr uid)
      in case revision of
           None \<Rightarrow> Inr (search_inner env st q 0 1000 ''-vid'')
         | Some r \<Rightarrow>
             (if r = ''tip'' then
                (case backingstore st of
                   None \<Rightarrow> Inl (AttributeError ''tip'')
                 | Some caps \<Rightarrow>
                     Inr (search_inner env st
                            (QFilter q (QField ''vid'' (PStr (tip env uid)))) 0 1000 ''-vid''))
              else
                Inr (search_inner env st (QFilter q (QField ''vid'' (PStr r))) 0 1000 ''-vid'')))"

subsection \<open>Tags\<close>

definition lower_char :: "char \<Rightarrow> char" where
  "lower_char c =
     (case map_of (zip ''ABCDEFGHIJKLMNOPQRSTUVWXYZ'' ''abcdefghijklmnopqrstuvwxyz'') c of
        None \<Rightarrow> c
      | Some l \<Rightarrow> l)"

definition lower :: "string \<Rightarrow> string" where
  "lower s = map lower_char s"

text \<open>
  \<open>str.split()\<close> without arguments: the maximal runs of characters that are not
  whitespace. \<open>cur\<close> is the run being read.
\<close>

fun split_acc :: "string \<Rightarrow> string \<Rightarrow> string list" where
  "split_acc cur [] = (if cur = [] then [] else [cur])"
| "split_acc cur (c # cs) =
     (if is_space c then (if cur = [] then split_acc [] cs else cur # split_acc [] cs)
      else split_acc (cur @ [c]) cs)"

definition split_ws :: "string \<Rightarrow> string list" where
  "split_ws s = split_acc [] s"

text \<open>
  \<open>_parse_tags(tags)\<close>: one triple of the tag, the flag \<open>all\<close> and the mode for every
  token.
\<close>

definition parse_tag :: "string \<Rightarrow> string \<times> bool \<times> int" where
  "parse_tag tag0 =
     (let tag1 = (if startswith tag0 ''-'' then drop 1 tag0 else tag0);
          mode = (if startswith tag0 ''-'' then REMOVE else ADD);
          tag2 = (if drop (length tag1 - 2) tag1 = '':0'' then take (length tag1 - 2) tag1 else tag1)
      in (tag2, True, mode))"

definition parse_tags :: "string \<Rightarrow> (string \<times> bool \<times> int) list" where
  "parse_tags tags = map parse_tag (split_ws (lower tags))"

text \<open>
  Modelled from the spec: \<open>get_property\<close> of a content object reads the document's data
  blob and gives the default when the key is missing (the class is in model.py, outside
  the sources). The tag set of a document is the set of the values under \<open>tags\<close>.
\<close>

definition get_property :: "sdoc \<Rightarrow> string \<Rightarrow> string list \<Rightarrow> string list" where
  "get_property c k dflt = (case data_get c k of None \<Rightarrow> dflt | Some vs \<Rightarrow> vs)"

definition tag_set :: "sdoc \<Rightarrow> string set" where
  "tag_set c = set (get_property c ''tags'' [])"

text \<open>
  What \<open>tag\<close> does to one document for one parsed token. The Python set \<open>existing\<close> is
  a list without duplicates; the order in which \<open>list(existing)\<close> gives it back is not
  determined by the program.
\<close>

definition edit_doc :: "string \<Rightarrow> int \<Rightarrow> sdoc \<Rightarrow> sdoc" where
  "edit_doc tag mode c =
     (if tag = [] \<and> mode = REMOVE then
        (if data_get c ''tags'' \<noteq> None then c\<lparr>sdata := AList.delete ''tags'' (sdata c)\<rparr> else c)
      else
        (let existing = remdups (get_property c ''tags'' []);
             existing' = (if tag \<in> set existing \<and> mode = REMOVE then removeAll tag existing
                          else List.insert tag existing)
         in c\<lparr>sdata := AList.update ''tags'' existing' (sdata c)\<rparr>))"

text \<open>
  The loop of \<open>tag\<close> over the parsed tokens. \<open>used\<close> says whether the local name
  \<open>used\<close> is bound: it is bound to \<open>results\<close> when \<open>all\<close> holds, and the other branch
  leaves it as it is, so reading it unbound raises.
\<close>

fun tag_loop :: "(string \<times> bool \<times> int) list \<Rightarrow> bool \<Rightarrow> sdoc list \<Rightarrow> sdoc list result" where
  "tag_loop [] used results = Inr results"
| "tag_loop ((tag, all, mode) # rest) used results =
     (if \<not> (all \<or> used) then Inl (NameError ''used'')
      else tag_loop rest True (map (edit_doc tag mode) results))"

definition tag ::
  "env \<Rightarrow> string \<Rightarrow> string \<Rightarrow> string option \<Rightarrow> state \<Rightarrow> unit result \<times> state" where
  "tag env uid tags revision st =
     (case get_by_uid_prop env st uid revision of
        Inl e \<Rightarrow> (Inl e, st)
      | Inr (results, count) \<Rightarrow>
          if count = 0 then (Inl (KeyError (''unable to apply tags to uid '' @ uid)), st)
          else
            (case tag_loop (parse_tags tags) False results of
               Inl e \<Rightarrow> (Inl e, st)
             | Inr docs \<Rightarrow> (Inr (), release (fold w_replace_document docs (acquire st)))))"

subsection \<open>Indexing: _mapProperties and index\<close>

definition opt_true :: "string option \<Rightarrow> bool" where
  "opt_true v = (case v of None \<Rightarrow> False | Some s \<Rightarrow> s \<noteq> [])"

definition opt_str :: "string option \<Rightarrow> string" where
  "opt_str v = (case v of None \<Rightarrow> [] | Some s \<Rightarrow> s)"

text \<open>
  The properties \<open>versions\<close> and \<open>inplace\<close> of the index manager.
\<close>

definition versions :: "state \<Rightarrow> bool" where
  "versions st = (case backingstore st of None \<Rightarrow> False | Some caps \<Rightarrow> ''versions'' \<in> set caps)"

definition inplace :: "state \<Rightarrow> bool" where
  "inplace st = (case backingstore st of None \<Rightarrow> False | Some caps \<Rightarrow> ''inplace'' \<in> set caps)"

text \<open>
  The loop of \<open>_mapProperties\<close>: the dictionary \<open>d\<close> built so far, the known fields
  and the flag \<open>add_anything\<close>.
\<close>

fun map_loop ::
  "env \<Rightarrow> (string \<times> string) list \<Rightarrow> (string \<times> property) list \<Rightarrow> string list \<Rightarrow> bool
   \<Rightarrow> (string \<times> property) list \<times> string list \<times> bool" where
  "map_loop env [] d flds add_anything = (d, flds, add_anything)"
| "map_loop env ((k, v) # rest) d flds add_anything =
     (let (p, added) = fromstring env k v
      in map_loop env rest (AList.update (prop_key p) p d)
           (if added then List.insert (prop_key p) flds else flds)
           (add_anything \<or> added))"

definition apply_model :: "env \<Rightarrow> state \<Rightarrow> state" where
  "apply_model env st = emit ApplyModel (st\<lparr>known_fields := model_apply env (known_fields st)\<rparr>)"

definition mapProperties ::
  "env \<Rightarrow> (string \<times> string) list \<Rightarrow> state \<Rightarrow> (string \<times> property) list \<times> state" where
  "mapProperties env props st =
     (let (d, flds, add_anything) = map_loop env props [] (known_fields st) False;
          st1 = st\<lparr>known_fields := flds\<rparr>
      in if add_anything then (d, release (apply_model env (acquire st1))) else (d, st1))"

text \<open>
  The mime type that \<open>index\<close> reads from the mapped properties:
  \<open>mimetype and mimetype.value or 'text/plain'\<close>.
\<close>

definition mimetype_of :: "(string \<times> property) list \<Rightarrow> string" where
  "mimetype_of mapped =
     (case map_of mapped ''mime_type'' of
        None \<Rightarrow> ''text/plain''
      | Some p \<Rightarrow> (if prop_value p \<noteq> [] then prop_value p else ''text/plain''))"

text \<open>
  The last loop of \<open>index\<close>: a property whose key is a known field becomes a field of
  the document, any other is dropped with a warning.
\<close>

fun field_loop ::
  "string list \<Rightarrow> (string \<times> property) list \<Rightarrow> (string \<times> string) list \<times> event list
   \<Rightarrow> (string \<times> string) list \<times> event list" where
  "field_loop flds [] acc = acc"
| "field_loop flds ((k, p) # rest) (fs, ws) =
     (if k \<notin> set flds
      then field_loop flds rest (fs, ws @ [Warn (''Missing field configuration for '' @ k)])
      else field_loop flds rest (fs @ [(k, for_xapian p)], ws))"

definition novid_warning :: string where
  "novid_warning = ''Didn'' @ [CHR 0x27] @ ''t supply needed versioning information''
     @ '' on a backingstore which performs versioning''"

text \<open>
  \<open>index(props, filename)\<close>. The result is the identity of the document, \<open>doc.id\<close>.
\<close>

definition index ::
  "env \<Rightarrow> (string \<times> string) list \<Rightarrow> string option \<Rightarrow> state \<Rightarrow> string result \<times> state" where
  "index env props filename st =
     (let uid0 = map_of props ''uid'';
          props1 = AList.delete ''uid'' props;
          uid = (if \<not> opt_true uid0 then create_uid env (uid_calls st) else opt_str uid0);
          st1 = (if \<not> opt_true uid0 then st\<lparr>uid_calls := Suc (uid_calls st)\<rparr> else st);
          operation = (if \<not> opt_true uid0 then CREATE else UPDATE);
          vid0 = (if versions st1 then map_of props1 ''vid'' else None);
          st2 = (if versions st1 \<and> \<not> opt_true vid0 then log_msg WARNING novid_warning st1 else st1);
          docid = (if versions st1 then create_uid env (uid_calls st2) else uid);
          st3 = (if versions st1 then st2\<lparr>uid_calls := Suc (uid_calls st2)\<rparr> else st2);
          vid = (if \<not> opt_true vid0 then ''1'' else opt_str vid0);
          props2 = AList.update ''vid'' vid (AList.update ''uid'' uid props1);
          (mapped, st4) = mapProperties env props2 st3;
          fs = (if opt_true filename
                then FilePair (Path (abspath env (opt_str filename))) (mimetype_of mapped)
                else Absent);
          (dfields, warns) = field_loop (known_fields st4) mapped ([], []);
          st5 = st4\<lparr>trace := trace st4 @ warns\<rparr>;
          doc = \<lparr>doc_id = docid, doc_fields = dfields\<rparr>;
          (r, st6) = enque uid (Some vid) (Some doc) operation fs st5
      in case r of
           Inl e \<Rightarrow> (Inl e, st6)
         | Inr u \<Rightarrow> (Inr (doc_id doc), st6))"

subsection \<open>The worker: indexThread\<close>

function read_chunks :: "string \<Rightarrow> string list" where
  "read_chunks text = (if text = [] then [] else take 2048 text # read_chunks (drop 2048 text))"
  by pat_completeness auto
termination
  by (relation "measure length") auto

declare read_chunks.simps [simp del]

definition digit_char :: "nat \<Rightarrow> char" where
  "digit_char d = ''0123456789'' ! d"

function str_nat :: "nat \<Rightarrow> string" where
  "str_nat n = (if n < 10 then [digit_char n] else str_nat (n div 10) @ [digit_char (n mod 10)])"
  by pat_completeness auto
termination
  by (relation "measure id") auto

declare str_nat.simps [simp del]

definition str_int :: "int \<Rightarrow> string" where
  "str_int i = (if i < 0 then ''-'' @ str_nat (nat (- i)) else str_nat (nat i))"

text \<open>
  \<open>os.unlink\<close> of the file name: it removes an existing path and raises otherwise.
\<close>

definition unlink :: "string option \<Rightarrow> state \<Rightarrow> unit result \<times> state" where
  "unlink filename st =
     (case filename of
        None \<Rightarrow> (Inl (TypeError ''unlink''), st)
      | Some p \<Rightarrow>
          (if p \<in> set (files st)
           then (Inr (), emit (Unlink p) (st\<lparr>files := removeAll p (files st)\<rparr>))
           else (Inl (OSError p), st)))"

text \<open>
  \<open>Queue.task_done\<close> raises when no task is unfinished.
\<close>

definition task_done :: "state \<Rightarrow> unit result \<times> state" where
  "task_done st =
     (if unfinished st = 0 then (Inl (ValueError ''task_done() called too many times''), st)
      else (Inr (), emit TaskDone (st\<lparr>unfinished := unfinished st - 1\<rparr>)))"

text \<open>
  The body of the \<open>for\<close> loop of the worker for one item: the exception that leaves
  it, if any, and the state.
\<close>

definition process_item :: "env \<Rightarrow> bool \<Rightarrow> bool \<Rightarrow> item \<Rightarrow> state \<Rightarrow> exn option \<times> state" where
  "process_item env vers inpl it st =
     (case it of Item uid vid doc operation fs \<Rightarrow>
        if operation = DELETE then
          (None, log_msg INFO (''deleted content '' @ uid) (w_delete uid st))
        else if operation = UPDATE then
          (case fs of
             Absent \<Rightarrow> (Some (TypeError ''NoneType object is not iterable''), st)
           | Seq n \<Rightarrow> (Some (ValueError ''unpack''), st)
           | FilePair fr mimetype \<Rightarrow>
               (let filename = (case fr of Path p \<Rightarrow> Some p | FileObj n \<Rightarrow> Some n | NoPath \<Rightarrow> None);
                    st1 = (if opt_true filename \<and> opt_str filename \<notin> set (files st)
                           then log_msg WARNING
                                  (''Expected file for indexing at '' @ opt_str filename @ ''. Not Found'') st
                           else st)
                in case converter env filename mimetype of
                     Inl e \<Rightarrow> (Some e, st1)
                   | Inr None \<Rightarrow>
                       (None, log_msg DEBUG
                                (''Conversion process failed for document '' @ uid @ '' '' @ str_opt filename)
                                st1)
                   | Inr (Some text) \<Rightarrow>
                       (case w_replace
                               (map_option
                                  (\<lambda>d. d\<lparr>doc_fields := doc_fields d
                                          @ map (\<lambda>chunk. (''fulltext'', chunk)) (read_chunks text)\<rparr>) doc) st1 of
                          (Inl e, st2) \<Rightarrow> (Some e, st2)
                        | (Inr u, st2) \<Rightarrow>
                            (if vers \<and> \<not> inpl then
                               (case unlink filename st2 of
                                  (Inl e, st3) \<Rightarrow> (Some e, st3)
                                | (Inr u', st3) \<Rightarrow>
                                    (None, log_msg INFO
                                             (''update file content '' @ uid @ '':'' @ str_opt vid) st3))
                             else
                               (None, log_msg INFO
                                        (''update file content '' @ uid @ '':'' @ str_opt vid) st2)))))
        else
          (None, log_msg WARNING
                   (''Unknown indexer operation ( '' @ uid @ '': '' @ str_int operation @ '')'') st))"

text \<open>
  The \<open>for\<close> loop over the items of a batch stops at the first exception.
\<close>

fun process_items :: "env \<Rightarrow> bool \<Rightarrow> bool \<Rightarrow> item list \<Rightarrow> state \<Rightarrow> exn option \<times> state" where
  "process_items env vers inpl [] st = (None, st)"
| "process_items env vers inpl (it # rest) st =
     (case process_item env vers inpl it st of
        (Some e, st1) \<Rightarrow> (Some e, st1)
      | (None, st1) \<Rightarrow> process_items env vers inpl rest st1)"

text \<open>
  The second \<open>try\<close> block of the loop body: the batch is applied under the lock,
  \<open>task_done\<close> follows the last item inside the \<open>with\<close> block, and the bare
  \<open>except\<close> logs whatever was raised.
\<close>

definition apply_batch :: "env \<Rightarrow> bool \<Rightarrow> bool \<Rightarrow> item list \<Rightarrow> state \<Rightarrow> state" where
  "apply_batch env vers inpl data st =
     (case process_items env vers inpl data (acquire st) of
        (Some e, st1) \<Rightarrow> log_msg EXCEPTION ''Error in indexer'' (release st1)
      | (None, st1) \<Rightarrow>
          (case task_done st1 of
             (Inl e, st2) \<Rightarrow> log_msg EXCEPTION ''Error in indexer'' (release st2)
           | (Inr u, st2) \<Rightarrow> release st2))"

text \<open>
  The first \<open>try\<close> block: an element is taken from the queue, and an element that is
  one item becomes a batch of one. An empty queue lets \<open>get\<close> time out with
  \<open>Empty\<close>, which the loop answers with \<open>continue\<close>; an empty sequence has no first
  element to test, and that exception is not caught.
\<close>

definition dequeue :: "state \<Rightarrow> (item list result \<times> state) option" where
  "dequeue st =
     (case queue st of
        [] \<Rightarrow> None
      | x # rest \<Rightarrow>
          Some (case x of
                  QItem it \<Rightarrow> Inr [it]
                | QSeq [] \<Rightarrow> Inl (IndexError ''tuple index out of range'')
                | QSeq (it # its) \<Rightarrow> Inr (it # its),
                emit (QGet x) (st\<lparr>queue := rest\<rparr>)))"

text \<open>
  One pass through the body of the \<open>while\<close> loop, and the loop itself for a number of
  passes. The worker leaves the loop when the running flag is off or when an exception
  escapes the body.
\<close>

datatype outcome = Running state | Stopped state | Died exn state

definition worker_pass :: "env \<Rightarrow> bool \<Rightarrow> bool \<Rightarrow> state \<Rightarrow> outcome" where
  "worker_pass env vers inpl st =
     (case dequeue st of
        None \<Rightarrow> Running st
      | Some (Inl e, st1) \<Rightarrow> Died e st1
      | Some (Inr data, st1) \<Rightarrow> Running (apply_batch env vers inpl data st1))"

fun worker_loop :: "nat \<Rightarrow> env \<Rightarrow> bool \<Rightarrow> bool \<Rightarrow> state \<Rightarrow> outcome" where
  "worker_loop 0 env vers inpl st = (if indexer_running st then Running st else Stopped st)"
| "worker_loop (Suc n) env vers inpl st =
     (if indexer_running st then
        (case worker_pass env vers inpl st of
           Running st1 \<Rightarrow> worker_loop n env vers inpl st1
         | other \<Rightarrow> other)
      else Stopped st)"

definition indexThread :: "nat \<Rightarrow> env \<Rightarrow> state \<Rightarrow> outcome" where
  "indexThread passes env st = worker_loop passes env (versions st) (inplace st) st"

subsection \<open>A small engine and environment for concrete runs\<close>

text \<open>
  Modelled from the spec: the engine binding is not part of the sources, and the concrete
  runs below need one. This engine matches a field query against the values the data
  blob keeps under the key, a filter and an AND composite by conjunction, an OR composite
  by disjunction, a range against the numeric values of the key, and a parsed word
  against the values under \<open>fulltext\<close>. For the sort specification \<open>-vid\<close> it orders
  the matches by version, highest first (versions are decimal numbers); for any other
  specification it keeps the order of the snapshot.
\<close>

definition digit_val :: "char \<Rightarrow> nat" where
  "digit_val c = length (takeWhile (\<lambda>x. x \<noteq> c) ''0123456789'')"

definition num_of :: "string \<Rightarrow> nat" where
  "num_of s = foldl (\<lambda>a c. 10 * a + digit_val c) 0 s"

fun matches :: "query \<Rightarrow> sdoc \<Rightarrow> bool" where
  "matches QAll d = True"
| "matches (QField k v) d = (case v of PStr s \<Rightarrow> s \<in> set (get_property d k []) | _ \<Rightarrow> False)"
| "matches (QRange k lo hi) d =
     list_ex (\<lambda>v. lo \<le> real (num_of v) \<and> real (num_of v) \<le> hi) (get_property d k [])"
| "matches (QComposite OP_AND qs) d = list_all (\<lambda>q. matches q d) qs"
| "matches (QComposite OP_OR qs) d = list_ex (\<lambda>q. matches q d) qs"
| "matches (QFilter q f) d = (matches q d \<and> matches f d)"
| "matches (QWord w f) d = (w \<in> set (get_property d ''fulltext'' []))"

definition vid_key :: "sdoc \<Rightarrow> int" where
  "vid_key d = - int (num_of (concat (get_property d ''vid'' [])))"

definition sample_rank :: "sdoc list \<Rightarrow> query \<Rightarrow> string \<Rightarrow> sdoc list" where
  "sample_rank snapshot q sortby =
     (let hits = filter (matches q) snapshot
      in if sortby = ''-vid'' then sort_key vid_key hits else hits)"

text \<open>
  The environment of the concrete runs: uids are numbered, the data model maps a key and
  a value to a property of the same key and value and adds no field, the converter
  yields a text for every named file but one, and the query parser rejects a lone
  boolean operator unless its flags are 0.
\<close>

definition sample_parser :: "qop \<Rightarrow> string \<Rightarrow> int \<Rightarrow> query result" where
  "sample_parser op' w f =
     (if f \<noteq> 0 \<and> w = ''AND'' then Inl (QueryParserError ''Syntax: <expression> AND <expression>'')
      else Inr (QWord w f))"

definition sample_env :: env where
  "sample_env =
     \<lparr>create_uid = (\<lambda>n. ''uid-'' @ str_nat n),
      fromstring = (\<lambda>k v. (\<lparr>prop_key = k, prop_value = v, for_xapian = v\<rparr>, False)),
      model_apply = (\<lambda>flds. flds),
      abspath = (\<lambda>p. if startswith p ''/'' then p else ''/home/olpc/'' @ p),
      converter = (\<lambda>name mime.
         case name of
           None \<Rightarrow> Inr None
         | Some p \<Rightarrow> if p = ''/broken'' then Inl (OSError p) else Inr (Some (''text of '' @ p))),
      qp_parse = sample_parser,
      ptf = (\<lambda>v. case v of PInt n \<Rightarrow> Inr (of_int n) | _ \<Rightarrow> Inl (ValueError ''float'')),
      maxint = 2147483647,
      tip = (\<lambda>u. ''1''),
      rank = sample_rank\<rparr>"

text \<open>
  A state with no documents, an empty queue and no backing store, and the same with a
  given snapshot committed and open on both connections.
\<close>

definition empty_state :: state where
  "empty_state =
     \<lparr>write_index = [], committed = [], read_index = [], queue = [], unfinished = 0,
      known_fields = [''uid'', ''vid'', ''title'', ''fulltext''], backingstore = None,
      indexer_running = True, files = [], uid_calls = 0, trace = []\<rparr>"

definition state_with :: "sdoc list \<Rightarrow> state" where
  "state_with docs = empty_state\<lparr>write_index := docs, committed := docs, read_index := docs\<rparr>"

subsection \<open>The structured query as the specification words it\<close>

text \<open>
  The specification's reading of a structured query, for comparison with \<open>search\<close>:
  every entry but \<open>query\<close> gives one clause. A mapping value gives a range clause over
  its \<open>start\<close> and \<open>end\<close> (0 and the maximum integer when missing), both parsed as
  timestamp or float; a list gives an OR of field matches over its elements; any other
  value gives one field match. The value under \<open>query\<close>, when it is not empty, is parsed
  with the textual grammar and stands first. The clauses are joined with AND; with no
  clause at all the query matches everything.
\<close>

definition spec_clause :: "env \<Rightarrow> string \<Rightarrow> pval \<Rightarrow> query result" where
  "spec_clause env k v =
     (case v of
        PDict r \<Rightarrow>
          (case ptf env (pop_default ''start'' (PInt 0) r) of
             Inl e \<Rightarrow> Inl e
           | Inr s \<Rightarrow>
               (case ptf env (pop_default ''end'' (PInt (maxint env)) r) of
                  Inl e \<Rightarrow> Inl e
                | Inr t \<Rightarrow> Inr (QRange k s t)))
      | PList items \<Rightarrow> Inr (QComposite OP_OR (map (QField k) items))
      | _ \<Rightarrow> Inr (QField k v))"

fun spec_clauses :: "env \<Rightarrow> (string \<times> pval) list \<Rightarrow> query list result" where
  "spec_clauses env [] = Inr []"
| "spec_clauses env ((k, v) # rest) =
     (case spec_clause env k v of
        Inl e \<Rightarrow> Inl e
      | Inr c \<Rightarrow>
          (case spec_clauses env rest of
             Inl e \<Rightarrow> Inl e
           | Inr cs \<Rightarrow> Inr (c # cs)))"

definition spec_structured :: "env \<Rightarrow> string list \<Rightarrow> (string \<times> pval) list \<Rightarrow> query result" where
  "spec_structured env flds d =
     (case (if pval_true (pop_default ''query'' PNone d)
            then (case parse_query env flds (pop_default ''query'' PNone d) of
                    Inl e \<Rightarrow> Inl e
                  | Inr pq \<Rightarrow> Inr [pq])
            else Inr []) of
        Inl e \<Rightarrow> Inl e
      | Inr nested \<Rightarrow>
          (case spec_clauses env (filter (\<lambda>(k, v). k \<noteq> ''query'') d) of
             Inl e \<Rightarrow> Inl e
           | Inr cs \<Rightarrow>
               if nested @ cs = [] then Inr QAll else Inr (QComposite OP_AND (nested @ cs))))"

subsection \<open>Helpers for stating the theorems\<close>

text \<open>
  The query that \<open>get_by_uid_prop\<close> hands to \<open>_search\<close>: the uid field, filtered by
  the revision when one is given, with \<open>tip\<close> resolved by the backing store.
\<close>

definition chain_query :: "env \<Rightarrow> string \<Rightarrow> string option \<Rightarrow> query" where
  "chain_query env uid revision =
     (case revision of
        None \<Rightarrow> QField ''uid'' (PStr uid)
      | Some r \<Rightarrow> QFilter (QField ''uid'' (PStr uid))
                    (QField ''vid'' (PStr (if r = ''tip'' then tip env uid else r))))"

text \<open>
  Documents for the concrete runs: version \<open>n\<close> of the logical uid \<open>u\<close>, with the one
  tag \<open>x\<close>; a chain of 1001 versions, the highest first; and a document with no tags.
\<close>

definition vdoc :: "nat \<Rightarrow> sdoc" where
  "vdoc n = \<lparr>sid = ''doc-'' @ str_nat n,
             sdata = [(''uid'', [''u'']), (''vid'', [str_nat n]), (''tags'', [''x''])]\<rparr>"

definition long_chain :: "sdoc list" where
  "long_chain = map vdoc (rev [0..<1001])"

definition plain_doc :: sdoc where
  "plain_doc = \<lparr>sid = ''doc-a'', sdata = [(''uid'', [''u'']), (''vid'', [''1''])]\<rparr>"

text \<open>
  The events a run appended to the trace, and what the processing of items leaves alone:
  it appends events other than \<open>TaskDone\<close> and changes neither the queue, nor its count
  of unfinished tasks, nor the running flag.
\<close>

definition new_events :: "state \<Rightarrow> state \<Rightarrow> event list" where
  "new_events st st' = drop (length (trace st)) (trace st')"

definition item_frame :: "state \<Rightarrow> state \<Rightarrow> bool" where
  "item_frame st st' =
     (take (length (trace st)) (trace st') = trace st
      \<and> TaskDone \<notin> set (new_events st st')
      \<and> queue st' = queue st
      \<and> unfinished st' = unfinished st
      \<and> indexer_running st' = indexer_running st)"

text \<open>
  A state with a backing store that versions its content.
\<close>

definition versioned_state :: state where
  "versioned_state = empty_state\<lparr>backingstore := Some [''versions'']\<rparr>"

text \<open>
  A worker state whose queue holds an UPDATE item without a file reference, which raises
  when the worker unpacks it, and behind it an item with the unknown operation 7.
\<close>

definition bad_item :: item where
  "bad_item = Item ''u1'' (Some ''1'') None UPDATE Absent"

definition odd_item :: item where
  "odd_item = Item ''u2'' (Some ''1'') None 7 Absent"

definition worker_state :: state where
  "worker_state = empty_state\<lparr>queue := [QItem bad_item, QItem odd_item], unfinished := 2\<rparr>"

section \<open>Theorems\<close>

lemmas prim_defs = emit_def acquire_def release_def log_msg_def w_add_def w_replace_def
  w_delete_def w_replace_document_def w_flush_def r_reopen_def queue_put_def flush_def

subsection \<open>The enqueue policy\<close>

text \<open>
  C1. For every call of \<open>enque\<close> with a document: a CREATE adds the document and an
  UPDATE replaces it on the write connection, between an acquire and a release of the
  write lock; a flush (commit of the write connection and reopening of the read
  connection, again under the lock) follows before \<open>enque\<close> returns, so the read
  snapshot holds the document; the item that is queued carries the operation UPDATE, and
  it is queued exactly when the file reference is truthy. A DELETE deletes the engine
  document of the uid under the lock, flushes, and returns with the queue as it was.
\<close>

theorem enque_policy:
  "(let r = enque uid vid (Some d) CREATE fs st;
        it = QItem (Item uid vid (Some d) UPDATE fs)
    in fst r = Inr ()
     \<and> trace (snd r) = trace st @
          [Acquire, WAdd d, Log INFO (''created '' @ uid @ '':'' @ str_opt vid), Release,
           Acquire, WFlush, RReopen, Release] @ (if truthy fs then [QPut it] else [])
     \<and> queue (snd r) = queue st @ (if truthy fs then [it] else [])
     \<and> write_index (snd r) = eng_put (process d) (write_index st)
     \<and> read_index (snd r) = eng_put (process d) (write_index st))
 \<and> (let r = enque uid vid (Some d) UPDATE fs st;
        it = QItem (Item uid vid (Some d) UPDATE fs)
    in fst r = Inr ()
     \<and> trace (snd r) = trace st @
          [Acquire, WReplace d, Log INFO (''updated '' @ uid @ '':'' @ str_opt vid), Release,
           Acquire, WFlush, RReopen, Release] @ (if truthy fs then [QPut it] else [])
     \<and> queue (snd r) = queue st @ (if truthy fs then [it] else [])
     \<and> write_index (snd r) = eng_put (process d) (write_index st)
     \<and> read_index (snd r) = eng_put (process d) (write_index st))
 \<and> (let r = enque uid vid doc DELETE fs st
    in fst r = Inr ()
     \<and> trace (snd r) = trace st @
          [Acquire, WDelete uid, Log INFO (''deleted content '' @ uid), Release,
           Acquire, WFlush, RReopen, Release]
     \<and> queue (snd r) = queue st
     \<and> write_index (snd r) = eng_delete uid (write_index st)
     \<and> read_index (snd r) = eng_delete uid (write_index st))"
  by (simp add: enque_def prim_defs CREATE_def UPDATE_def DELETE_def Let_def)

subsection \<open>The retry of the query parser\<close>

lemma query_parse_retry_unbound:
  "qp_parse env OP_AND word flags = Inl (QueryParserError m) \<Longrightarrow>
   query_parse env word flags None = Inl (NameError ''string'')"
  by (simp add: query_parse_def lookup_name_def query_parse_locals_def module_names_def)

text \<open>
  C2. The claim is that after a parse error \<open>_query_parse\<close> parses the word again with
  the flags 0 and returns that result. The handler reads the name \<open>string\<close>, which is
  bound nowhere, instead of \<open>word\<close>. With a parser that rejects the word \<open>AND\<close> under
  the flags of \<open>parse_query\<close> and accepts it under the flags 0, the call raises NameError;
  the second parse is never made.
\<close>

theorem query_parse_retry_raises_NameError:
  "qp_parse sample_env OP_AND ''AND'' FLAG_LOVEHATE
     = Inl (QueryParserError ''Syntax: <expression> AND <expression>'')
   \<and> qp_parse sample_env OP_AND ''AND'' 0 = Inr (QWord ''AND'' 0)
   \<and> query_parse sample_env ''AND'' FLAG_LOVEHATE None = Inl (NameError ''string'')"
  by (simp add: query_parse_def lookup_name_def query_parse_locals_def module_names_def
      sample_env_def sample_parser_def FLAG_LOVEHATE_def)

subsection \<open>Not-found errors\<close>

lemma eng_get_None_iff: "eng_get i ds = None \<longleftrightarrow> i \<notin> sid ` set ds"
  by (induction ds) auto

text \<open>
  C7. \<open>get\<close> of an identity that no document of the read snapshot has raises KeyError.
  \<open>tag\<close> of a uid for which \<open>get_by_uid_prop\<close> counts no result raises KeyError and
  leaves the whole state, the trace included, as it was: nothing is modified or replaced.
\<close>

theorem not_found_errors:
  "(uid \<notin> sid ` set (read_index st) \<longrightarrow> get st uid = Inl (KeyError uid))
   \<and> (get_by_uid_prop env st uid revision = Inr (results, 0) \<longrightarrow>
        tag env uid tags revision st
          = (Inl (KeyError (''unable to apply tags to uid '' @ uid)), st))"
  by (simp add: get_def tag_def eng_get_None_iff [symmetric])

theorem not_found_errors_witness:
  "''u1'' \<notin> sid ` set (read_index empty_state)
   \<and> get empty_state ''u1'' = Inl (KeyError ''u1'')
   \<and> get_by_uid_prop sample_env empty_state ''u1'' None = Inr ([], 0)
   \<and> tag sample_env ''u1'' ''alpha'' None empty_state
        = (Inl (KeyError (''unable to apply tags to uid u1'')), empty_state)"
proof -
  have a: "''u1'' \<notin> sid ` set (read_index empty_state)"
    by (simp add: empty_state_def)
  have b: "get_by_uid_prop sample_env empty_state ''u1'' None = Inr ([], 0)"
    by (simp add: get_by_uid_prop_def search_inner_def engine_search_def sample_env_def
        sample_rank_def empty_state_def)
  from a b not_found_errors [of "''u1''" empty_state sample_env None "[]" "''alpha''"]
  show ?thesis by simp
qed

subsection \<open>A chain of versions longer than the result window\<close>

lemma digit_val_digit_char: "d < 10 \<Longrightarrow> digit_val (digit_char d) = d"
proof -
  assume "d < 10"
  then have "d = 0 \<or> d = 1 \<or> d = 2 \<or> d = 3 \<or> d = 4 \<or> d = 5 \<or> d = 6 \<or> d = 7 \<or> d = 8 \<or> d = 9"
    by arith
  then show ?thesis
    by (elim disjE) (simp_all add: digit_val_def digit_char_def)
qed

lemma num_of_snoc: "num_of (s @ [c]) = 10 * num_of s + digit_val c"
  by (simp add: num_of_def)

lemma num_of_str_nat: "num_of (str_nat n) = n"
proof (induction n rule: str_nat.induct)
  case (1 n)
  show ?case
  proof (cases "n < 10")
    case True
    then have "str_nat n = [digit_char n]"
      by (subst str_nat.simps) simp
    with True show ?thesis
      by (simp add: digit_val_digit_char num_of_def)
  next
    case False
    then have "num_of (str_nat n) = 10 * num_of (str_nat (n div 10)) + digit_val (digit_char (n mod 10))"
      by (subst str_nat.simps) (simp add: num_of_snoc)
    also have "\<dots> = 10 * (n div 10) + n mod 10"
      using False "1.IH" by (simp add: digit_val_digit_char)
    also have "\<dots> = n" by simp
    finally show ?thesis .
  qed
qed

lemma str_nat_inj: "str_nat m = str_nat n \<Longrightarrow> m = n"
  by (metis num_of_str_nat)

lemma vid_key_vdoc: "vid_key (vdoc n) = - int n"
  by (simp add: vid_key_def vdoc_def get_property_def data_get_def num_of_str_nat)

lemma matches_vdoc: "matches (QField ''uid'' (PStr ''u'')) (vdoc n)"
  by (simp add: vdoc_def get_property_def data_get_def)

lemma sid_vdoc_eq: "sid (vdoc m) = sid (vdoc n) \<longleftrightarrow> m = n"
  by (auto simp: vdoc_def dest: str_nat_inj)

lemma sorted_keys_desc: "sorted (map (\<lambda>n. - int n) (rev [0..<k]))"
  by (induction k) (auto)

lemma rank_long_chain:
  "sample_rank long_chain (QField ''uid'' (PStr ''u'')) ''-vid'' = long_chain"
proof -
  have f: "filter (matches (QField ''uid'' (PStr ''u''))) long_chain = long_chain"
    unfolding long_chain_def by (rule filter_True) (auto simp del: matches.simps simp add: matches_vdoc)
  have "map vid_key long_chain = map (\<lambda>n. - int n) (rev [0..<1001])"
    by (simp add: long_chain_def vid_key_vdoc comp_def)
  then have "sorted (map vid_key long_chain)"
    by (simp only: sorted_keys_desc)
  then have "sort_key vid_key long_chain = long_chain"
    by (rule sort_key_id_if_sorted)
  with f show ?thesis by (simp add: sample_rank_def)
qed

lemma take_long_chain: "take 1000 long_chain = map vdoc (rev [Suc 0..<1001])"
proof -
  have "[0..<1001] = 0 # [Suc 0..<1001]" by (rule upt_conv_Cons) simp
  then have r: "rev [0..<1001] = rev [Suc 0..<1001] @ [0]" by (simp only: rev.simps)
  have "length (rev [Suc 0..<1001]) = 1000" by simp
  then have "take 1000 (rev [Suc 0..<1001] @ [0]) = rev [Suc 0..<1001]" by simp
  with r show ?thesis by (simp only: long_chain_def take_map)
qed

lemma resolve_long_chain:
  "get_by_uid_prop sample_env (state_with long_chain) ''u'' None
     = Inr (map vdoc (rev [Suc 0..<1001]), 1001)"
proof -
  have r: "rank sample_env = sample_rank" by (simp add: sample_env_def)
  have ri: "read_index (state_with long_chain) = long_chain" by (simp add: state_with_def empty_state_def)
  have len: "length long_chain = 1001" by (simp add: long_chain_def)
  show ?thesis
    by (simp add: get_by_uid_prop_def search_inner_def engine_search_def r ri rank_long_chain take_long_chain len)
qed

lemma eng_get_member:
  "distinct (map sid ds) \<Longrightarrow> d \<in> set ds \<Longrightarrow> eng_get (sid d) ds = Some d"
  by (induction ds) (auto simp: image_iff)

lemma distinct_long_chain: "distinct (map sid long_chain)"
proof -
  have "inj_on (sid \<circ> vdoc) (set (rev [0..<1001]))"
    by (rule inj_onI) (simp add: sid_vdoc_eq)
  then show ?thesis
    by (simp add: long_chain_def distinct_map)
qed

subsection \<open>The result window of get_by_uid_prop\<close>

text \<open>
  C10. \<open>get_by_uid_prop\<close> searches the window from 0 to 1000 with the sort
  specification \<open>-vid\<close>: its results are the first 1000 documents of the engine's
  ranking of the chain, never more, and the count is that of the whole ranking, so a
  longer chain loses its later documents without a sign. (The one call that does not
  return is the one for the tip without a backing store.)
\<close>

theorem get_by_uid_prop_window:
  "get_by_uid_prop env st uid revision =
     (if revision = Some ''tip'' \<and> backingstore st = None then Inl (AttributeError ''tip'')
      else Inr (take 1000 (rank env (read_index st) (chain_query env uid revision) ''-vid''),
                length (rank env (read_index st) (chain_query env uid revision) ''-vid'')))
   \<and> (\<forall>results count. get_by_uid_prop env st uid revision = Inr (results, count) \<longrightarrow>
         length results \<le> 1000 \<and> length results = min 1000 count)"
  by (auto simp: get_by_uid_prop_def search_inner_def engine_search_def chain_query_def Let_def
      split: option.splits)

theorem get_by_uid_prop_window_witness:
  "get_by_uid_prop sample_env (state_with [vdoc 1, plain_doc, vdoc 2]) ''u'' (Some ''2'')
     = Inr ([vdoc 2], 1)
   \<and> get_by_uid_prop sample_env (state_with [vdoc 1, vdoc 2]) ''u'' None
     = Inr ([vdoc 2, vdoc 1], 2)
   \<and> length [vdoc 2, vdoc 1] \<le> 1000 \<and> length [vdoc 2, vdoc 1] = min 1000 2
   \<and> get_by_uid_prop sample_env (state_with long_chain) ''u'' None
     = Inr (map vdoc (rev [Suc 0..<1001]), 1001)
   \<and> length (map vdoc (rev [Suc 0..<1001])) = min 1000 1001"
proof -
  have small:
    "get_by_uid_prop sample_env (state_with [vdoc 1, plain_doc, vdoc 2]) ''u'' (Some ''2'')
       = Inr ([vdoc 2], 1)
     \<and> get_by_uid_prop sample_env (state_with [vdoc 1, vdoc 2]) ''u'' None
       = Inr ([vdoc 2, vdoc 1], 2)
     \<and> length [vdoc 2, vdoc 1] \<le> 1000 \<and> length [vdoc 2, vdoc 1] = min 1000 2"
    using get_by_uid_prop_window [of sample_env "state_with [vdoc 1, vdoc 2]" "''u''" None]
      get_by_uid_prop_window [of sample_env "state_with [vdoc 1, plain_doc, vdoc 2]" "''u''"
        "Some ''2''"]
    by (simp add: sample_env_def sample_rank_def state_with_def empty_state_def chain_query_def
        vdoc_def plain_doc_def get_property_def data_get_def vid_key_def num_of_def digit_val_def
        digit_char_def str_nat.simps)
  have long: "length (map vdoc (rev [Suc 0..<1001])) = min 1000 1001"
    using get_by_uid_prop_window [of sample_env "state_with long_chain" "''u''" None]
      resolve_long_chain
    by simp
  from small long resolve_long_chain show ?thesis by (intro conjI) simp_all
qed

subsection \<open>The translation of a structured query\<close>

lemma dict_clauses_spec:
  "dict_clauses env d queries =
     (case spec_clauses env d of Inl e \<Rightarrow> Inl e | Inr cs \<Rightarrow> Inr (queries @ cs))"
proof (induction d arbitrary: queries)
  case Nil
  show ?case by simp
next
  case (Cons kv d)
  obtain k v where kv: "kv = (k, v)" by (cases kv)
  show ?case
    unfolding kv
    by (cases v) (simp_all add: Cons.IH spec_clause_def Let_def split: sum.splits)
qed

text \<open>
  C6. For every structured query, \<open>search\<close> builds the query the specification
  describes: a range clause over the parsed \<open>start\<close> and \<open>end\<close> for a mapping value
  (0 and the maximum integer by default), an OR composite of field matches for a list,
  one field match for any other value, the parsed nested \<open>query\<close> as a further clause,
  all joined with AND (and the query that matches everything when there is no clause).
  An exception of the timestamp parser or of the textual parser leaves \<open>search\<close> as
  it is raised. In particular the query with the categories a and b and the date range
  from 0 to 100 becomes (category = a OR category = b) AND (date in the range).
\<close>

theorem structured_query_translation:
  "build_query env flds (PDict d) = spec_structured env flds d
   \<and> search env st (PDict d) start_index end_index ob
       = (case spec_structured env (known_fields st) d of
            Inl e \<Rightarrow> Inl e
          | Inr q \<Rightarrow> Inr (search_inner env st q start_index end_index (sort_spec ob)))
   \<and> (ptf env (PInt 0) = Inr lo \<and> ptf env (PInt 100) = Inr hi \<longrightarrow>
        build_query env flds
          (PDict [(''category'', PList [PStr ''a'', PStr ''b'']),
                  (''date'', PDict [(''start'', PInt 0), (''end'', PInt 100)])])
        = Inr (QComposite OP_AND
                 [QComposite OP_OR [QField ''category'' (PStr ''a''), QField ''category'' (PStr ''b'')],
                  QRange ''date'' lo hi]))"
proof -
  have bq: "build_query env fl (PDict d) = spec_structured env fl d" for fl
  proof (cases "d = []")
    case True
    then show ?thesis
      by (simp add: build_query_def spec_structured_def pop_default_def)
  next
    case False
    have del: "AList.delete ''query'' d = filter (\<lambda>(k, v). k \<noteq> ''query'') d"
      by (induction d) (auto simp: AList.delete_eq)
    have ne: "spec_clauses env xs = Inr [] \<Longrightarrow> xs = []" for xs
      by (cases xs) (auto split: sum.splits)
    show ?thesis
      using False
      by (auto simp: build_query_def spec_structured_def Let_def del dict_clauses_spec
          split: sum.splits dest: ne)
  qed
  have se: "search env st (PDict d) start_index end_index ob
       = (case spec_structured env (known_fields st) d of
            Inl e \<Rightarrow> Inl e
          | Inr q \<Rightarrow> Inr (search_inner env st q start_index end_index (sort_spec ob)))"
    by (simp add: search_def bq)
  have ex: "ptf env (PInt 0) = Inr lo \<and> ptf env (PInt 100) = Inr hi \<longrightarrow>
        build_query env flds
          (PDict [(''category'', PList [PStr ''a'', PStr ''b'']),
                  (''date'', PDict [(''start'', PInt 0), (''end'', PInt 100)])])
        = Inr (QComposite OP_AND
                 [QComposite OP_OR [QField ''category'' (PStr ''a''), QField ''category'' (PStr ''b'')],
                  QRange ''date'' lo hi])"
    by (simp add: build_query_def pop_default_def AList.delete_eq Let_def)
  from bq [of flds] se ex show ?thesis by (intro conjI)
qed

theorem structured_query_translation_witness:
  "ptf sample_env (PInt 0) = Inr 0 \<and> ptf sample_env (PInt 100) = Inr 100
   \<and> build_query sample_env []
          (PDict [(''category'', PList [PStr ''a'', PStr ''b'']),
                  (''date'', PDict [(''start'', PInt 0), (''end'', PInt 100)])])
        = Inr (QComposite OP_AND
                 [QComposite OP_OR [QField ''category'' (PStr ''a''), QField ''category'' (PStr ''b'')],
                  QRange ''date'' 0 100])"
proof -
  have p: "ptf sample_env (PInt 0) = Inr 0 \<and> ptf sample_env (PInt 100) = Inr 100"
    by (simp add: sample_env_def)
  from p structured_query_translation [where env = sample_env and flds = "[]" and d = "[]"
      and lo = 0 and hi = 100]
  show ?thesis by simp
qed

subsection \<open>Tagging\<close>

lemma split_acc_no_space:
  "\<forall>c\<in>set s. \<not> is_space c \<Longrightarrow> split_acc cur s = (if cur @ s = [] then [] else [cur @ s])"
  by (induction s arbitrary: cur) auto

lemma parse_tags_remove_token:
  assumes "lower t = t" and "\<forall>c\<in>set t. \<not> is_space c" and "\<not> endswith t '':0''"
  shows "parse_tags (CHR ''-'' # t) = [(t, True, REMOVE)]"
proof -
  have low: "lower (CHR ''-'' # t) = CHR ''-'' # t"
    using assms(1) by (simp add: lower_def lower_char_def)
  have nosp: "\<forall>c\<in>set (CHR ''-'' # t). \<not> is_space c"
    using assms(2) by (simp add: is_space_def)
  have sp: "split_ws (CHR ''-'' # t) = [CHR ''-'' # t]"
    unfolding split_ws_def using split_acc_no_space [OF nosp, of "[]"] by simp
  have strip: "drop (length t - 2) t \<noteq> '':0''"
  proof
    assume e: "drop (length t - 2) t = '':0''"
    then have "length (drop (length t - 2) t) = 2" by simp
    then have "2 \<le> length t" by simp
    with e assms(3) show False by (auto simp: endswith_def numeral_2_eq_2)
  qed
  show ?thesis
    by (simp add: parse_tags_def low sp parse_tag_def startswith_def strip Let_def)
qed

lemma parse_tags_clear: "parse_tags ''-'' = [([], True, REMOVE)]"
  by (simp add: parse_tags_def parse_tag_def lower_def lower_char_def split_ws_def is_space_def
      startswith_def)

lemma trace_fold_replace:
  "trace (fold w_replace_document docs s) = trace s @ map WReplaceDocument docs"
  by (induction docs arbitrary: s) (simp_all add: w_replace_document_def emit_def)

lemma write_index_fold_replace:
  "write_index (fold w_replace_document docs s) = fold eng_put docs (write_index s)"
  by (induction docs arbitrary: s) (simp_all add: w_replace_document_def emit_def)

lemma read_index_fold_replace:
  "read_index (fold w_replace_document docs s) = read_index s"
  by (induction docs arbitrary: s) (simp_all add: w_replace_document_def emit_def)

lemma eng_get_put: "eng_get i (eng_put d xs) = (if i = sid d then Some d else eng_get i xs)"
  by (induction xs) auto

lemma eng_get_fold_other:
  "i \<notin> sid ` set docs \<Longrightarrow> eng_get i (fold eng_put docs xs) = eng_get i xs"
  by (induction docs arbitrary: xs) (auto simp: eng_get_put)

lemma eng_get_fold_same:
  "distinct (map sid docs) \<Longrightarrow> d \<in> set docs \<Longrightarrow> eng_get (sid d) (fold eng_put docs xs) = Some d"
proof (induction docs arbitrary: xs)
  case Nil
  then show ?case by simp
next
  case (Cons x docs)
  show ?case
  proof (cases "d \<in> set docs")
    case True
    with Cons show ?thesis by simp
  next
    case False
    with Cons.prems have dx: "d = x" and "sid x \<notin> sid ` set docs" by auto
    then show ?thesis by (simp add: eng_get_fold_other eng_get_put)
  qed
qed

lemma sid_edit_doc [simp]: "sid (edit_doc t m c) = sid c"
  by (simp add: edit_doc_def Let_def)

lemma tag_set_edit_doc:
  "t \<noteq> [] \<or> m \<noteq> REMOVE \<Longrightarrow>
   tag_set (edit_doc t m c) =
     (if t \<in> tag_set c \<and> m = REMOVE then tag_set c - {t} else insert t (tag_set c))"
  by (auto simp: edit_doc_def tag_set_def get_property_def data_get_def Let_def update_conv')

lemma edit_doc_clear:
  "data_get (edit_doc [] REMOVE c) ''tags'' = None \<and> tag_set (edit_doc [] REMOVE c) = {}"
  by (auto simp: edit_doc_def tag_set_def get_property_def data_get_def delete_conv')

lemma tag_keeps_read_snapshot:
  "read_index (snd (tag env uid tags revision st)) = read_index st"
  by (auto simp: tag_def release_def acquire_def emit_def read_index_fold_replace
      split: sum.splits prod.splits)

lemma tag_one_token:
  assumes "get_by_uid_prop env st uid revision = Inr (results, count)" and "count \<noteq> 0"
    and "parse_tags tags = [(t, True, m)]"
  shows "tag env uid tags revision st =
           (Inr (), release (fold w_replace_document (map (edit_doc t m) results) (acquire st)))"
  using assms by (simp add: tag_def)

text \<open>
  C9. A remove token for a tag that a resolved document does not carry adds the tag. Let
  \<open>t\<close> be a token as \<open>_parse_tags\<close> leaves it (lower case, no whitespace, not empty,
  no suffix \<open>:0\<close>) and \<open>c\<close> a document that \<open>get_by_uid_prop\<close> resolves for the
  uid, with \<open>t\<close> not in its tag set. After \<open>tag(uid, "-t")\<close> the write connection holds
  the document with the tag set of \<open>c\<close> plus \<open>t\<close>. The edit for one tag removes it only
  when it is present and the mode is REMOVE, and adds it in every other case.
\<close>

theorem tag_remove_absent_adds:
  assumes "get_by_uid_prop env st uid revision = Inr (results, count)" and "count \<noteq> 0"
    and "t \<noteq> []" and "lower t = t" and "\<forall>x\<in>set t. \<not> is_space x" and "\<not> endswith t '':0''"
    and "distinct (map sid results)"
    and "c \<in> set results" and "t \<notin> tag_set c"
  shows "fst (tag env uid (''-'' @ t) revision st) = Inr ()
       \<and> eng_get (sid c) (write_index (snd (tag env uid (''-'' @ t) revision st)))
           = Some (edit_doc t REMOVE c)
       \<and> tag_set (edit_doc t REMOVE c) = insert t (tag_set c)
       \<and> (\<forall>m d. tag_set (edit_doc t m d) =
             (if t \<in> tag_set d \<and> m = REMOVE then tag_set d - {t} else insert t (tag_set d)))"
proof -
  let ?docs = "map (edit_doc t REMOVE) results"
  have run: "tag env uid (CHR ''-'' # t) revision st =
               (Inr (), release (fold w_replace_document ?docs (acquire st)))"
    using assms(1,2) parse_tags_remove_token [OF assms(4,5,6)] by (rule tag_one_token)
  have dist: "distinct (map sid ?docs)"
    using assms(7) by (simp add: comp_def)
  have mem: "edit_doc t REMOVE c \<in> set ?docs"
    using assms(8) by simp
  have "eng_get (sid (edit_doc t REMOVE c)) (fold eng_put ?docs (write_index (acquire st)))
          = Some (edit_doc t REMOVE c)"
    using dist mem by (rule eng_get_fold_same)
  then have stored: "eng_get (sid c) (write_index (snd (tag env uid (CHR ''-'' # t) revision st)))
          = Some (edit_doc t REMOVE c)"
    by (simp add: run release_def emit_def write_index_fold_replace)
  show ?thesis
    using stored assms(3,9) by (simp add: run tag_set_edit_doc)
qed

theorem tag_remove_absent_adds_witness:
  "get_by_uid_prop sample_env (state_with [plain_doc]) ''u'' None = Inr ([plain_doc], 1)
   \<and> ''beta'' \<notin> tag_set plain_doc
   \<and> fst (tag sample_env ''u'' ''-beta'' None (state_with [plain_doc])) = Inr ()
   \<and> eng_get ''doc-a'' (write_index (snd (tag sample_env ''u'' ''-beta'' None (state_with [plain_doc]))))
        = Some (edit_doc ''beta'' REMOVE plain_doc)
   \<and> tag_set (edit_doc ''beta'' REMOVE plain_doc) = {''beta''}"
proof -
  have r: "get_by_uid_prop sample_env (state_with [plain_doc]) ''u'' None = Inr ([plain_doc], 1)"
    by (simp add: get_by_uid_prop_def search_inner_def engine_search_def sample_env_def sample_rank_def
        state_with_def empty_state_def plain_doc_def get_property_def data_get_def)
  have t: "''beta'' \<notin> tag_set plain_doc"
    by (simp add: tag_set_def plain_doc_def get_property_def data_get_def)
  have tok: "lower ''beta'' = ''beta''" "\<forall>x\<in>set ''beta''. \<not> is_space x" "\<not> endswith ''beta'' '':0''"
    by (simp_all add: lower_def lower_char_def is_space_def endswith_def)
  have e: "tag_set plain_doc = {}"
    by (simp add: tag_set_def plain_doc_def get_property_def data_get_def)
  have s: "sid plain_doc = ''doc-a''" by (simp add: plain_doc_def)
  from tag_remove_absent_adds [where env = sample_env and st = "state_with [plain_doc]"
      and uid = "''u''" and revision = None and results = "[plain_doc]" and count = 1
      and t = "''beta''" and c = plain_doc, OF r _ _ tok _ _ t]
  show ?thesis using r t e s by simp
qed

text \<open>
  What \<open>tag(uid, "-")\<close> does with the documents that \<open>get_by_uid_prop\<close> hands it:
  it deletes the \<open>tags\<close> entry from the data blob of each and replaces each on the
  write connection, under the lock; a document that is not among them stays as it is.
\<close>

lemma tag_clear_resolved_chain:
  assumes "get_by_uid_prop env st uid revision = Inr (results, count)" and "count \<noteq> 0"
  shows "fst (tag env uid ''-'' revision st) = Inr ()
       \<and> trace (snd (tag env uid ''-'' revision st))
           = trace st @ [Acquire] @ map WReplaceDocument (map (edit_doc [] REMOVE) results) @ [Release]
       \<and> (\<forall>c\<in>set results. data_get (edit_doc [] REMOVE c) ''tags'' = None
                           \<and> tag_set (edit_doc [] REMOVE c) = {})
       \<and> (distinct (map sid results) \<longrightarrow>
            (\<forall>c\<in>set results. eng_get (sid c) (write_index (snd (tag env uid ''-'' revision st)))
                                = Some (edit_doc [] REMOVE c)))
       \<and> (\<forall>i. i \<notin> sid ` set results \<longrightarrow>
              eng_get i (write_index (snd (tag env uid ''-'' revision st))) = eng_get i (write_index st))"
proof -
  let ?docs = "map (edit_doc [] REMOVE) results"
  have run: "tag env uid ''-'' revision st =
               (Inr (), release (fold w_replace_document ?docs (acquire st)))"
    using assms parse_tags_clear by (rule tag_one_token)
  have tr: "trace (snd (tag env uid ''-'' revision st))
           = trace st @ [Acquire] @ map WReplaceDocument ?docs @ [Release]"
    by (simp add: run release_def emit_def acquire_def trace_fold_replace)
  have wi: "write_index (snd (tag env uid ''-'' revision st)) = fold eng_put ?docs (write_index st)"
    by (simp add: run release_def emit_def acquire_def write_index_fold_replace)
  have same: "eng_get (sid c) (fold eng_put ?docs (write_index st)) = Some (edit_doc [] REMOVE c)"
    if "distinct (map sid results)" and "c \<in> set results" for c
  proof -
    from that(1) have "distinct (map sid ?docs)" by (simp add: comp_def)
    moreover from that(2) have "edit_doc [] REMOVE c \<in> set ?docs" by simp
    ultimately have "eng_get (sid (edit_doc [] REMOVE c)) (fold eng_put ?docs (write_index st))
                       = Some (edit_doc [] REMOVE c)"
      by (rule eng_get_fold_same)
    then show ?thesis by simp
  qed
  have other: "eng_get i (fold eng_put ?docs (write_index st)) = eng_get i (write_index st)"
    if "i \<notin> sid ` set results" for i
  proof -
    from that have "i \<notin> sid ` set ?docs" by (simp add: image_comp comp_def)
    then show ?thesis by (rule eng_get_fold_other)
  qed
  show ?thesis
    using same other by (simp add: run [THEN arg_cong, of fst] tr wi edit_doc_clear)
qed

lemma tag_clear_resolved_chain_example:
  "get_by_uid_prop sample_env (state_with [vdoc 1, vdoc 2]) ''u'' None = Inr ([vdoc 2, vdoc 1], 2)
   \<and> tag_set (vdoc 1) = {''x''}
   \<and> fst (tag sample_env ''u'' ''-'' None (state_with [vdoc 1, vdoc 2])) = Inr ()
   \<and> eng_get (sid (vdoc 1)) (write_index (snd (tag sample_env ''u'' ''-'' None (state_with [vdoc 1, vdoc 2]))))
        = Some (edit_doc [] REMOVE (vdoc 1))
   \<and> tag_set (edit_doc [] REMOVE (vdoc 1)) = {}"
proof -
  have r: "get_by_uid_prop sample_env (state_with [vdoc 1, vdoc 2]) ''u'' None
             = Inr ([vdoc 2, vdoc 1], 2)"
    by (simp add: get_by_uid_prop_def search_inner_def engine_search_def sample_env_def sample_rank_def
        state_with_def empty_state_def vdoc_def get_property_def data_get_def vid_key_def
        num_of_def digit_val_def digit_char_def str_nat.simps)
  have ts: "tag_set (vdoc 1) = {''x''}"
    by (simp add: tag_set_def vdoc_def get_property_def data_get_def)
  have d: "distinct (map sid [vdoc 2, vdoc 1])"
    by (simp add: vdoc_def str_nat.simps digit_char_def)
  from tag_clear_resolved_chain [OF r] d ts r
  show ?thesis by simp
qed

text \<open>
  C5. The claim is that \<open>tag(uid, "-")\<close> removes the tag set from every document in
  the version chain of the uid. \<open>tag\<close> edits the list of the results of
  \<open>get_by_uid_prop\<close>, which its comment calls the whole version chain, but the search
  behind it stops at the index 1000. In a chain of 1001 versions of the uid \<open>u\<close>, each
  with the tag \<open>x\<close>, \<open>tag(u, "-")\<close> returns normally, and version 0, which matches
  the uid, is still on the write connection with its tag.
\<close>

theorem tag_clear_misses_long_chain:
  "vdoc 0 \<in> set long_chain
   \<and> matches (QField ''uid'' (PStr ''u'')) (vdoc 0)
   \<and> tag_set (vdoc 0) = {''x''}
   \<and> fst (tag sample_env ''u'' ''-'' None (state_with long_chain)) = Inr ()
   \<and> eng_get (sid (vdoc 0)) (write_index (snd (tag sample_env ''u'' ''-'' None (state_with long_chain))))
       = Some (vdoc 0)"
proof -
  have mem: "vdoc 0 \<in> set long_chain" by (simp add: long_chain_def)
  have ts: "tag_set (vdoc 0) = {''x''}"
    by (simp add: tag_set_def vdoc_def get_property_def data_get_def)
  have parse: "parse_tags ''-'' = [([], True, REMOVE)]" by (rule parse_tags_clear)
  let ?docs = "map (edit_doc [] REMOVE) (map vdoc (rev [Suc 0..<1001]))"
  have run: "tag sample_env ''u'' ''-'' None (state_with long_chain) =
               (Inr (), release (fold w_replace_document ?docs (acquire (state_with long_chain))))"
    using resolve_long_chain _ parse by (rule tag_one_token) simp
  have notin: "sid (vdoc 0) \<notin> sid ` set ?docs"
  proof
    assume "sid (vdoc 0) \<in> sid ` set ?docs"
    then obtain n where "n \<in> set (rev [Suc 0..<1001])" and "sid (vdoc 0) = sid (vdoc n)"
      by (auto simp only: set_map image_iff sid_edit_doc)
    then show False by (simp add: sid_vdoc_eq)
  qed
  have wi0: "write_index (state_with long_chain) = long_chain"
    by (simp add: state_with_def empty_state_def)
  have "eng_get (sid (vdoc 0)) (write_index (snd (tag sample_env ''u'' ''-'' None (state_with long_chain))))
          = eng_get (sid (vdoc 0)) (fold eng_put ?docs long_chain)"
    by (simp add: run release_def emit_def acquire_def write_index_fold_replace wi0)
  also have "\<dots> = eng_get (sid (vdoc 0)) long_chain"
    using notin by (rule eng_get_fold_other)
  also have "\<dots> = Some (vdoc 0)"
    using distinct_long_chain mem by (rule eng_get_member)
  finally have kept: "eng_get (sid (vdoc 0))
      (write_index (snd (tag sample_env ''u'' ''-'' None (state_with long_chain)))) = Some (vdoc 0)" .
  have ok: "fst (tag sample_env ''u'' ''-'' None (state_with long_chain)) = Inr ()"
    by (simp add: run)
  from mem matches_vdoc [of 0] ts ok kept show ?thesis
    by (intro conjI)
qed

lemmas run_defs = tag_def get_by_uid_prop_def search_inner_def engine_search_def sample_env_def sample_rank_def
  state_with_def empty_state_def plain_doc_def vdoc_def get_property_def data_get_def vid_key_def
  num_of_def digit_val_def digit_char_def str_nat.simps parse_tags_def parse_tag_def lower_def
  lower_char_def split_ws_def is_space_def startswith_def edit_doc_def tag_set_def
  ADD_def REMOVE_def Let_def

lemma first_tag:
  "tag sample_env ''u'' ''alpha beta'' None (state_with [plain_doc]) =
     (Inr (), (state_with [plain_doc])
        \<lparr>write_index := [\<lparr>sid = ''doc-a'',
             sdata = [(''uid'', [''u'']), (''vid'', [''1'']), (''tags'', [''beta'', ''alpha''])]\<rparr>],
         trace := [Acquire,
           WReplaceDocument \<lparr>sid = ''doc-a'',
             sdata = [(''uid'', [''u'']), (''vid'', [''1'']), (''tags'', [''beta'', ''alpha''])]\<rparr>,
           Release]\<rparr>)"
  by (simp add: run_defs prim_defs)

text \<open>
  C4. The claim is that \<open>tag(uid, "alpha beta")\<close> followed by \<open>tag(uid, "-alpha")\<close>
  leaves a document that had no tags with exactly the tag beta. \<open>tag\<close> replaces the
  documents on the write connection and does not flush, so the second call resolves the
  document from the read snapshot, where it still has no tags; alpha is then absent, and
  the remove edit adds it. The write connection ends with the tag set of alpha alone, and
  the read snapshot with none.
\<close>

theorem tag_twice_stale_snapshot:
  "tag_set plain_doc = {}
   \<and> fst (tag sample_env ''u'' ''alpha beta'' None (state_with [plain_doc])) = Inr ()
   \<and> map tag_set (write_index (snd (tag sample_env ''u'' ''alpha beta'' None (state_with [plain_doc]))))
       = [{''alpha'', ''beta''}]
   \<and> fst (tag sample_env ''u'' ''-alpha'' None
             (snd (tag sample_env ''u'' ''alpha beta'' None (state_with [plain_doc])))) = Inr ()
   \<and> map tag_set (write_index (snd (tag sample_env ''u'' ''-alpha'' None
             (snd (tag sample_env ''u'' ''alpha beta'' None (state_with [plain_doc]))))))
       = [{''alpha''}]
   \<and> map tag_set (read_index (snd (tag sample_env ''u'' ''-alpha'' None
             (snd (tag sample_env ''u'' ''alpha beta'' None (state_with [plain_doc]))))))
       = [{}]"
  unfolding first_tag
  by (simp add: run_defs prim_defs insert_commute)

text \<open>
  With a flush between the two calls the second one sees the tags of the first, and the
  result is the tag beta. No call of \<open>tag\<close> reopens the read snapshot
  (\<open>tag_keeps_read_snapshot\<close>), whereas \<open>enque\<close> flushes after its write.
\<close>

lemma tag_twice_with_flush:
  "map tag_set (write_index (snd (tag sample_env ''u'' ''-alpha'' None
             (flush (snd (tag sample_env ''u'' ''alpha beta'' None (state_with [plain_doc]))))))) 
       = [{''beta''}]"
  unfolding first_tag
  by (simp add: run_defs prim_defs)

subsection \<open>The worker\<close>

lemma item_frame_refl: "item_frame st st"
  by (simp add: item_frame_def new_events_def)

lemma item_frame_trans: "item_frame a b \<Longrightarrow> item_frame b c \<Longrightarrow> item_frame a c"
proof -
  assume ab: "item_frame a b" and bc: "item_frame b c"
  from ab have b: "trace b = trace a @ new_events a b"
    unfolding item_frame_def new_events_def by (metis append_take_drop_id)
  from bc have c: "trace c = trace b @ new_events b c"
    unfolding item_frame_def new_events_def by (metis append_take_drop_id)
  have t: "trace c = trace a @ (new_events a b @ new_events b c)"
    using b c by simp
  have "take (length (trace a)) (trace c) = trace a"
    by (subst t) simp
  moreover have "new_events a c = new_events a b @ new_events b c"
    unfolding new_events_def [of a c] by (subst t) simp
  ultimately show ?thesis
    using ab bc by (simp add: item_frame_def)
qed

lemma process_item_frame: "item_frame st (snd (process_item env vers inpl it st))"
proof (cases it)
  case (Item uid vid doc operation fs)
  show ?thesis
    unfolding Item process_item_def
    by (auto simp: Let_def item_frame_def new_events_def log_msg_def emit_def w_delete_def
          w_replace_def unlink_def
        split: filestuff.splits sum.splits option.splits prod.splits if_splits)
qed

lemma process_items_frame: "item_frame st (snd (process_items env vers inpl data st))"
proof (induction data arbitrary: st)
  case Nil
  show ?case by (simp add: item_frame_refl)
next
  case (Cons it data)
  obtain r st1 where p: "process_item env vers inpl it st = (r, st1)"
    by (cases "process_item env vers inpl it st")
  have f1: "item_frame st st1"
    using process_item_frame [of st env vers inpl it] p by simp
  show ?case
  proof (cases r)
    case None
    with p f1 Cons.IH [of st1] show ?thesis
      by (auto intro: item_frame_trans)
  next
    case (Some e)
    with p f1 show ?thesis by simp
  qed
qed

lemma item_frame_emit_right: "item_frame a b \<Longrightarrow> e \<noteq> TaskDone \<Longrightarrow> item_frame a (emit e b)"
proof -
  assume ab: "item_frame a b" and e: "e \<noteq> TaskDone"
  have "item_frame b (emit e b)"
    using e by (simp add: item_frame_def new_events_def emit_def)
  with ab show ?thesis by (rule item_frame_trans)
qed

lemma process_items_acquire_frame:
  "process_items env vers inpl data (acquire st) = (r, st1) \<Longrightarrow> item_frame st st1"
proof -
  assume p: "process_items env vers inpl data (acquire st) = (r, st1)"
  have "item_frame st (acquire st)"
    unfolding acquire_def by (rule item_frame_emit_right [OF item_frame_refl]) simp
  moreover have "item_frame (acquire st) st1"
    using process_items_frame [of "acquire st" env vers inpl data] p by simp
  ultimately show ?thesis by (rule item_frame_trans)
qed

lemma apply_batch_frame:
  "queue (apply_batch env vers inpl data st) = queue st
   \<and> indexer_running (apply_batch env vers inpl data st) = indexer_running st"
proof -
  obtain r st1 where p: "process_items env vers inpl data (acquire st) = (r, st1)"
    by (cases "process_items env vers inpl data (acquire st)")
  from p have "item_frame st st1" by (rule process_items_acquire_frame)
  then have "queue st1 = queue st" and "indexer_running st1 = indexer_running st"
    by (simp_all add: item_frame_def)
  then show ?thesis
    by (cases r)
      (simp_all add: apply_batch_def p task_done_def log_msg_def release_def emit_def)
qed

lemma worker_pass_empty_sequence:
  "queue st = QSeq [] # rest \<Longrightarrow>
   worker_pass env vers inpl st
     = Died (IndexError ''tuple index out of range'') (emit (QGet (QSeq [])) (st\<lparr>queue := rest\<rparr>))"
  by (simp add: worker_pass_def dequeue_def)

text \<open>
  The second \<open>try\<close> block, for every batch the worker applies: an exception raised by
  an item is caught by its handler, the lock is released and the error logged, and no
  \<open>task_done\<close> is recorded; when no item raises, \<open>task_done\<close> follows the last
  item (and none comes earlier). Whenever the first \<open>try\<close> block has made a batch of
  the element it took from the queue, the pass ends with the worker still running, the
  queue shortened by that element, and the loop goes on to its next pass. An item whose
  operation is neither DELETE nor UPDATE only logs a warning and leaves the write
  connection as it is.
\<close>

lemma worker_batch_isolation:
  "(process_items env vers inpl data (acquire st) = (Some e, stx) \<longrightarrow>
       apply_batch env vers inpl data st = log_msg EXCEPTION ''Error in indexer'' (release stx)
     \<and> TaskDone \<notin> set (new_events st (apply_batch env vers inpl data st)))
 \<and> (process_items env vers inpl batch (acquire sa) = (None, sb) \<longrightarrow>
       TaskDone \<notin> set (new_events sa sb)
     \<and> (unfinished sb \<noteq> 0 \<longrightarrow>
           trace (apply_batch env vers inpl batch sa) = trace sb @ [TaskDone, Release]))
 \<and> (dequeue q = Some (Inr dat, s) \<and> indexer_running q \<longrightarrow>
       worker_pass env vers inpl q = Running (apply_batch env vers inpl dat s)
     \<and> worker_loop (Suc n) env vers inpl q
         = worker_loop n env vers inpl (apply_batch env vers inpl dat s)
     \<and> queue (apply_batch env vers inpl dat s) = tl (queue q)
     \<and> indexer_running (apply_batch env vers inpl dat s))
 \<and> (operation \<noteq> DELETE \<and> operation \<noteq> UPDATE \<longrightarrow>
       process_item env vers inpl (Item uid vid doc operation fs) t
         = (None, log_msg WARNING
                    (''Unknown indexer operation ( '' @ uid @ '': '' @ str_int operation @ '')'') t)
     \<and> write_index (snd (process_item env vers inpl (Item uid vid doc operation fs) t))
         = write_index t)"
proof (intro conjI impI)
  assume p: "process_items env vers inpl data (acquire st) = (Some e, stx)"
  show a: "apply_batch env vers inpl data st = log_msg EXCEPTION ''Error in indexer'' (release stx)"
    by (simp add: apply_batch_def p)
  from p have "item_frame st stx" by (rule process_items_acquire_frame)
  then have "item_frame st (emit (Log EXCEPTION ''Error in indexer'') (emit Release stx))"
    by (intro item_frame_emit_right) simp_all
  then show "TaskDone \<notin> set (new_events st (apply_batch env vers inpl data st))"
    by (simp add: a log_msg_def release_def item_frame_def)
next
  assume p: "process_items env vers inpl batch (acquire sa) = (None, sb)"
  then have "item_frame sa sb" by (rule process_items_acquire_frame)
  then show "TaskDone \<notin> set (new_events sa sb)"
    by (simp add: item_frame_def)
next
  assume p: "process_items env vers inpl batch (acquire sa) = (None, sb)"
    and u: "unfinished sb \<noteq> 0"
  then show "trace (apply_batch env vers inpl batch sa) = trace sb @ [TaskDone, Release]"
    by (simp add: apply_batch_def task_done_def release_def emit_def)
next
  assume d: "dequeue q = Some (Inr dat, s) \<and> indexer_running q"
  then show wp: "worker_pass env vers inpl q = Running (apply_batch env vers inpl dat s)"
    by (simp add: worker_pass_def)
  from d wp show "worker_loop (Suc n) env vers inpl q
         = worker_loop n env vers inpl (apply_batch env vers inpl dat s)"
    by simp
  from d have "queue s = tl (queue q)" and "indexer_running s"
    by (auto simp: dequeue_def emit_def split: list.splits)
  then show "queue (apply_batch env vers inpl dat s) = tl (queue q)"
    and "indexer_running (apply_batch env vers inpl dat s)"
    by (simp_all add: apply_batch_frame)
next
  assume o: "operation \<noteq> DELETE \<and> operation \<noteq> UPDATE"
  then show "process_item env vers inpl (Item uid vid doc operation fs) t
         = (None, log_msg WARNING
                    (''Unknown indexer operation ( '' @ uid @ '': '' @ str_int operation @ '')'') t)"
    by (simp add: process_item_def)
  then show "write_index (snd (process_item env vers inpl (Item uid vid doc operation fs) t))
         = write_index t"
    by (simp add: log_msg_def emit_def)
qed

lemma worker_batch_isolation_example:
  "dequeue worker_state
     = Some (Inr [bad_item], emit (QGet (QItem bad_item)) (worker_state\<lparr>queue := [QItem odd_item]\<rparr>))
   \<and> indexer_running worker_state
   \<and> process_items sample_env False False [bad_item]
       (acquire (emit (QGet (QItem bad_item)) (worker_state\<lparr>queue := [QItem odd_item]\<rparr>)))
     = (Some (TypeError ''NoneType object is not iterable''),
        acquire (emit (QGet (QItem bad_item)) (worker_state\<lparr>queue := [QItem odd_item]\<rparr>)))
   \<and> process_items sample_env False False [odd_item] (acquire worker_state)
     = (None, log_msg WARNING ''Unknown indexer operation ( u2: 7)'' (acquire worker_state))
   \<and> worker_loop 2 sample_env False False worker_state
     = Running (worker_state
         \<lparr>queue := [], unfinished := 1,
          trace := [QGet (QItem bad_item), Acquire, Release, Log EXCEPTION ''Error in indexer'',
                    QGet (QItem odd_item), Acquire,
                    Log WARNING ''Unknown indexer operation ( u2: 7)'', TaskDone, Release]\<rparr>)"
  using worker_batch_isolation
    [where env = sample_env and vers = False and inpl = False
      and data = "[bad_item]"
      and st = "emit (QGet (QItem bad_item)) (worker_state\<lparr>queue := [QItem odd_item]\<rparr>)"
      and e = "TypeError ''NoneType object is not iterable''"
      and stx = "acquire (emit (QGet (QItem bad_item)) (worker_state\<lparr>queue := [QItem odd_item]\<rparr>))"
      and batch = "[odd_item]" and sa = worker_state
      and sb = "log_msg WARNING ''Unknown indexer operation ( u2: 7)'' (acquire worker_state)"
      and q = worker_state and dat = "[bad_item]"
      and s = "emit (QGet (QItem bad_item)) (worker_state\<lparr>queue := [QItem odd_item]\<rparr>)"
      and n = 1 and operation = 7 and uid = "''u2''" and vid = "Some ''1''" and doc = None
      and fs = Absent and t = "acquire worker_state"]
  by (simp add: worker_state_def empty_state_def bad_item_def odd_item_def worker_pass_def
      dequeue_def apply_batch_def process_item_def task_done_def prim_defs UPDATE_def DELETE_def
      str_int_def str_nat.simps digit_char_def numeral_2_eq_2)

text \<open>
  C8. The claim is that an exception raised for a queued batch is caught and logged and
  that the worker never ends because of a failing item. The handler that catches
  everything guards the second \<open>try\<close> block only. The first one, which takes the
  element from the queue and looks at its first component to tell one item from a
  sequence, catches nothing but \<open>Empty\<close>. An empty sequence, put by
  \<open>enqueSequence\<close>, has no first component: the IndexError leaves the loop and ends
  the worker, with the sequence queued after it never taken and no \<open>task_done\<close>.
\<close>

theorem worker_dies_on_empty_sequence:
  "indexThread 3 sample_env (enqueSequence [odd_item] (enqueSequence [] empty_state))
     = Died (IndexError ''tuple index out of range'')
         (empty_state
            \<lparr>queue := [QSeq [odd_item]], unfinished := 2,
             trace := [QPut (QSeq []), QPut (QSeq [odd_item]), QGet (QSeq [])]\<rparr>)"
  by (simp add: indexThread_def worker_pass_def dequeue_def enqueSequence_def queue_put_def
      emit_def empty_state_def numeral_3_eq_3)

subsection \<open>The identity index returns\<close>

lemma versions_uid_calls [simp]: "versions (st\<lparr>uid_calls := n\<rparr>) = versions st"
  by (simp add: versions_def)

lemma versions_log [simp]: "versions (log_msg l m st) = versions st"
  by (simp add: versions_def log_msg_def emit_def)

lemma uid_calls_log [simp]: "uid_calls (log_msg l m st) = uid_calls st"
  by (simp add: log_msg_def emit_def)

lemma queue_log [simp]: "queue (log_msg l m st) = queue st"
  by (simp add: log_msg_def emit_def)

lemma unfinished_log [simp]: "unfinished (log_msg l m st) = unfinished st"
  by (simp add: log_msg_def emit_def)

lemma mapProperties_frame:
  "mapProperties env props st = (d, st') \<Longrightarrow>
   queue st' = queue st \<and> unfinished st' = unfinished st \<and> uid_calls st' = uid_calls st"
  by (auto simp: mapProperties_def apply_model_def acquire_def release_def emit_def Let_def
      split: prod.splits if_splits)

lemma enque_sync_result:
  "enque uid vid (Some d) operation fs st = (r, st') \<Longrightarrow>
   operation = CREATE \<or> operation = UPDATE \<Longrightarrow>
   r = Inr ()
   \<and> uid_calls st' = uid_calls st
   \<and> queue st' = queue st @ (if truthy fs then [QItem (Item uid vid (Some d) UPDATE fs)] else [])
   \<and> unfinished st' = unfinished st + (if truthy fs then 1 else 0)"
  by (auto simp: enque_def prim_defs CREATE_def UPDATE_def Let_def)

lemma index_facts:
  assumes "uid = (if opt_true (map_of props ''uid'') then opt_str (map_of props ''uid'')
                  else create_uid env (uid_calls st))"
    and "docid = (if versions st
                  then create_uid env (if opt_true (map_of props ''uid'') then uid_calls st
                                       else Suc (uid_calls st))
                  else uid)"
  shows "fst (index env props filename st) = Inr docid
    \<and> uid_calls (snd (index env props filename st))
        = uid_calls st + (if opt_true (map_of props ''uid'') then 0 else 1)
            + (if versions st then 1 else 0)
    \<and> (\<exists>vid dfields mime. queue (snd (index env props filename st))
        = queue st @
          (if opt_true filename
           then [QItem (Item uid (Some vid) (Some \<lparr>doc_id = docid, doc_fields = dfields\<rparr>) UPDATE
                          (FilePair (Path (abspath env (opt_str filename))) mime))]
           else []))
    \<and> unfinished (snd (index env props filename st))
        = unfinished st + (if opt_true filename then 1 else 0)"
proof -
  note c = enque_sync_result [where operation = CREATE, simplified]
  note u = enque_sync_result [where operation = UPDATE, simplified]
  show ?thesis
    unfolding assms
  proof (cases "opt_true (map_of props ''uid'')"; cases "versions st"; cases "opt_true filename")
  qed (auto simp: index_def Let_def split: prod.splits dest!: mapProperties_frame c u)
qed

text \<open>
  C3. Let \<open>create_uid\<close> never return the same uid twice, nor one that the caller passes
  as the logical uid. For every call of \<open>index\<close>, with the logical uid being the one in
  \<open>props\<close> when it is not empty and a new one otherwise: on a versioned store the
  identity returned is the uid of a call of \<open>create_uid\<close> made during this call of
  \<open>index\<close>, and differs from the logical uid; on another store it is the logical uid.
  \<open>index\<close> returns it with the queued work still pending: without a file name nothing
  is queued, and with one the queue ends with the item of this document, under the
  logical uid, and the count of unfinished tasks has grown by one.
\<close>

theorem index_identity:
  assumes uniq: "inj (create_uid env)"
    and unused: "opt_true (map_of props ''uid'') \<longrightarrow>
                  (\<forall>n. uid_calls st \<le> n \<longrightarrow> create_uid env n \<noteq> opt_str (map_of props ''uid''))"
  shows "(let uid = (if opt_true (map_of props ''uid'') then opt_str (map_of props ''uid'')
                     else create_uid env (uid_calls st));
              r = index env props filename st
          in (versions st \<longrightarrow>
                (\<exists>n. uid_calls st \<le> n \<and> fst r = Inr (create_uid env n)
                      \<and> uid_calls (snd r) = Suc n)
                \<and> fst r \<noteq> Inr uid)
           \<and> (\<not> versions st \<longrightarrow> fst r = Inr uid)
           \<and> (\<not> opt_true filename \<longrightarrow>
                 queue (snd r) = queue st \<and> unfinished (snd r) = unfinished st)
           \<and> (opt_true filename \<longrightarrow>
                 unfinished (snd r) = Suc (unfinished st)
                 \<and> (\<exists>vid d mime. queue (snd r) = queue st @
                       [QItem (Item uid (Some vid) (Some d) UPDATE
                                (FilePair (Path (abspath env (opt_str filename))) mime))]
                     \<and> fst r = Inr (doc_id d))))"
proof -
  define uid where "uid = (if opt_true (map_of props ''uid'') then opt_str (map_of props ''uid'')
                  else create_uid env (uid_calls st))"
  define n where "n = (if opt_true (map_of props ''uid'') then uid_calls st else Suc (uid_calls st))"
  define docid where "docid = (if versions st then create_uid env n else uid)"
  define r where "r = index env props filename st"
  have f: "fst r = Inr docid"
    and calls: "uid_calls (snd r) = uid_calls st + (if opt_true (map_of props ''uid'') then 0 else 1)
            + (if versions st then 1 else 0)"
    and q: "\<exists>vid dfields mime. queue (snd r) = queue st @
          (if opt_true filename
           then [QItem (Item uid (Some vid) (Some \<lparr>doc_id = docid, doc_fields = dfields\<rparr>) UPDATE
                          (FilePair (Path (abspath env (opt_str filename))) mime))]
           else [])"
    and unf: "unfinished (snd r) = unfinished st + (if opt_true filename then 1 else 0)"
    using index_facts [OF uid_def, of docid filename] by (simp_all add: docid_def n_def r_def)
  have fresh: "create_uid env n \<noteq> uid"
  proof (cases "opt_true (map_of props ''uid'')")
    case True
    with unused show ?thesis by (simp add: uid_def n_def)
  next
    case False
    have "create_uid env (Suc (uid_calls st)) \<noteq> create_uid env (uid_calls st)"
      using uniq by (simp add: inj_eq)
    with False show ?thesis by (simp add: uid_def n_def)
  qed
  have v: "versions st \<longrightarrow>
             (\<exists>n. uid_calls st \<le> n \<and> fst r = Inr (create_uid env n) \<and> uid_calls (snd r) = Suc n)
             \<and> fst r \<noteq> Inr uid"
  proof
    assume vs: "versions st"
    then have "uid_calls st \<le> n \<and> fst r = Inr (create_uid env n) \<and> uid_calls (snd r) = Suc n"
      using f calls by (simp add: docid_def n_def)
    moreover have "fst r \<noteq> Inr uid"
      using vs f fresh by (simp add: docid_def)
    ultimately show "(\<exists>n. uid_calls st \<le> n \<and> fst r = Inr (create_uid env n) \<and> uid_calls (snd r) = Suc n)
             \<and> fst r \<noteq> Inr uid"
      by blast
  qed
  have nv: "\<not> versions st \<longrightarrow> fst r = Inr uid"
    using f by (simp add: docid_def)
  have nf: "\<not> opt_true filename \<longrightarrow> queue (snd r) = queue st \<and> unfinished (snd r) = unfinished st"
    using q unf by auto
  have wf: "opt_true filename \<longrightarrow>
                 unfinished (snd r) = Suc (unfinished st)
                 \<and> (\<exists>vid d mime. queue (snd r) = queue st @
                       [QItem (Item uid (Some vid) (Some d) UPDATE
                                (FilePair (Path (abspath env (opt_str filename))) mime))]
                     \<and> fst r = Inr (doc_id d))"
  proof
    assume fn: "opt_true filename"
    from q fn obtain vid dfields mime where
      "queue (snd r) = queue st @
          [QItem (Item uid (Some vid) (Some \<lparr>doc_id = docid, doc_fields = dfields\<rparr>) UPDATE
                          (FilePair (Path (abspath env (opt_str filename))) mime))]"
      by auto
    moreover have "fst r = Inr (doc_id \<lparr>doc_id = docid, doc_fields = dfields\<rparr>)"
      using f by simp
    ultimately have "\<exists>vid d mime. queue (snd r) = queue st @
                       [QItem (Item uid (Some vid) (Some d) UPDATE
                                (FilePair (Path (abspath env (opt_str filename))) mime))]
                     \<and> fst r = Inr (doc_id d)"
      by blast
    with fn unf show "unfinished (snd r) = Suc (unfinished st)
                 \<and> (\<exists>vid d mime. queue (snd r) = queue st @
                       [QItem (Item uid (Some vid) (Some d) UPDATE
                                (FilePair (Path (abspath env (opt_str filename))) mime))]
                     \<and> fst r = Inr (doc_id d))"
      by simp
  qed
  from v nv nf wf show ?thesis
    unfolding Let_def uid_def [symmetric] r_def [symmetric] by blast
qed

theorem index_identity_witness:
  "versions versioned_state
   \<and> fst (index sample_env [(''uid'', ''abc''), (''vid'', ''2''), (''title'', ''t'')] (Some ''notes.txt'')
            versioned_state) = Inr ''uid-0''
   \<and> ''uid-0'' \<noteq> ''abc''
   \<and> queue (snd (index sample_env [(''uid'', ''abc''), (''vid'', ''2''), (''title'', ''t'')]
                    (Some ''notes.txt'') versioned_state))
       = [QItem (Item ''abc'' (Some ''2'')
                  (Some \<lparr>doc_id = ''uid-0'',
                         doc_fields = [(''vid'', ''2''), (''title'', ''t''), (''uid'', ''abc'')]\<rparr>)
                  UPDATE (FilePair (Path ''/home/olpc/notes.txt'') ''text/plain''))]
   \<and> \<not> versions empty_state
   \<and> fst (index sample_env [(''uid'', ''abc''), (''title'', ''t'')] None empty_state) = Inr ''abc''"
proof -
  have i: "inj (create_uid sample_env)"
    by (auto simp: sample_env_def inj_def dest: str_nat_inj)
  have u: "opt_true (map_of props ''uid'') \<longrightarrow>
             (\<forall>n. uid_calls st \<le> n \<longrightarrow> create_uid sample_env n \<noteq> opt_str (map_of props ''uid''))"
    if "map_of props ''uid'' = Some ''abc''" for props :: "(string \<times> string) list" and st :: state
    using that by (simp add: sample_env_def opt_str_def)
  have u1: "map_of [(''uid'', ''abc''), (''vid'', ''2''), (''title'', ''t'')] ''uid'' = Some ''abc''"
    and u2: "map_of [(''uid'', ''abc''), (''title'', ''t'')] ''uid'' = Some ''abc''"
    by simp_all
  from index_identity [OF i u [OF u1], of versioned_state "Some ''notes.txt''"]
    index_identity [OF i u [OF u2], of empty_state None]
  show ?thesis
    by (simp add: index_def mapProperties_def enque_def prim_defs versioned_state_def empty_state_def
        sample_env_def versions_def opt_true_def opt_str_def str_nat.simps digit_char_def
        mimetype_of_def startswith_def CREATE_def UPDATE_def Let_def)
qed

end
